theory Spec2Isabelle
  imports Complex_Main
begin

section \<open>Strings and JavaScript helpers\<close>

text \<open>
  JavaScript strings are modelled as \<open>string\<close>.  The regular expressions of the program
  are built from plain tag names (letters and digits) with the flag \<open>i\<close>, so a test
  against them is a comparison up to ASCII letter case.
\<close>

definition lower_char :: "char \<Rightarrow> char" where
  "lower_char c =
     (case map_of (zip ''ABCDEFGHIJKLMNOPQRSTUVWXYZ'' ''abcdefghijklmnopqrstuvwxyz'') c of
        Some d \<Rightarrow> d
      | None \<Rightarrow> c)"

definition lower_string :: "string \<Rightarrow> string" where
  "lower_string s = map lower_char s"

text \<open>\<open>Array.prototype.join\<close> on an array of strings.\<close>

fun join :: "string \<Rightarrow> string list \<Rightarrow> string" where
  "join sep [] = []"
| "join sep [x] = x"
| "join sep (x # y # ys) = x @ sep @ join sep (y # ys)"

section \<open>Margin formatter (src/lib/formatter/margin.formatter.ts)\<close>

text \<open>
  A JavaScript \<open>Map\<close> from strings to strings is an association list with distinct keys
  in insertion order: \<open>get\<close> is \<open>map_of\<close> (\<open>None\<close> for \<open>undefined\<close>), \<open>set\<close> replaces the
  value of a present key in place and appends an absent one.
\<close>

type_synonym strmap = "(string \<times> string) list"

fun map_set :: "string \<Rightarrow> string \<Rightarrow> strmap \<Rightarrow> strmap" where
  "map_set k v [] = [(k, v)]"
| "map_set k v ((k', v') # m) = (if k' = k then (k, v) # m else (k', v') # map_set k v m)"

record FormatAbstractData =
  tag :: string
  attrs :: strmap
  styles :: strmap
  classes :: "string list"

record FormatRendingContext =
  abstractData :: FormatAbstractData

text \<open>
  \<open>VElement\<close> is declared outside the files at hand; \<open>render\<close> reads its \<open>tagName\<close> and writes
  its \<open>styles\<close> map, and \<open>new VElement('span')\<close> is an element of that tag with no style.
\<close>

record VElement =
  tagName :: string
  styles :: strmap

definition new_VElement :: "string \<Rightarrow> VElement" where
  "new_VElement t = \<lparr>VElement.tagName = t, VElement.styles = []\<rparr>"

datatype RenderMode = ReplaceMode VElement | ChildSlotMode VElement

text \<open>
  \<open>MarginFormatter\<close> is abstract with a protected constructor; its two subclasses pass
  their tag lists to it.
\<close>

datatype MarginFormatter = InlineMarginFormatter | BlockMarginFormatter

definition inlineTags :: "string list" where
  "inlineTags = [''span'', ''em'', ''i'', ''s'', ''del'', ''sup'', ''sub'', ''u'', ''strong'']"

definition blockTags :: "string list" where
  "blockTags = [''div'', ''p'', ''h1'', ''h2'', ''h3'', ''h4'', ''h5'', ''h6'', ''nav'',
                ''header'', ''footer'', ''td'', ''th'', ''li'', ''article'']"

fun tags :: "MarginFormatter \<Rightarrow> string list" where
  "tags InlineMarginFormatter = inlineTags"
| "tags BlockMarginFormatter = blockTags"

text \<open>\<open>this.reg.test(s)\<close> with \<open>reg = new RegExp(`^(${tags.join('|')})$`, 'i')\<close>.\<close>

definition reg_test :: "MarginFormatter \<Rightarrow> string \<Rightarrow> bool" where
  "reg_test f s = (lower_string s \<in> set (map lower_string (tags f)))"

text \<open>
  \<open>i || 0\<close> followed by the string conversion of \<open>join\<close>: a missing or empty value
  becomes the number \<open>0\<close>, printed \<open>0\<close>.
\<close>

definition or_zero :: "string option \<Rightarrow> string" where
  "or_zero v = (case v of None \<Rightarrow> ''0'' | Some s \<Rightarrow> if s = [] then ''0'' else s)"

definition margin :: "'a FormatRendingContext_scheme \<Rightarrow> string list" where
  "margin context =
     map or_zero
       [map_of (FormatAbstractData.styles (FormatRendingContext.abstractData context)) ''marginTop'',
        map_of (FormatAbstractData.styles (FormatRendingContext.abstractData context)) ''marginRight'',
        map_of (FormatAbstractData.styles (FormatRendingContext.abstractData context)) ''marginLeft'',
        map_of (FormatAbstractData.styles (FormatRendingContext.abstractData context)) ''marginBottom'']"

text \<open>
  \<open>render\<close> returns the caller's \<open>existingElement\<close> as the call leaves it (mutated in
  place, or untouched when a new element is made) and the render mode, \<open>None\<close> for
  \<open>null\<close>.
\<close>

definition MarginFormatter_render ::
  "MarginFormatter \<Rightarrow> 'a FormatRendingContext_scheme \<Rightarrow> VElement option
     \<Rightarrow> VElement option \<times> RenderMode option" where
  "MarginFormatter_render f context existingElement =
     (case existingElement of
        Some e \<Rightarrow>
          if reg_test f (VElement.tagName e)
          then (Some (e\<lparr>VElement.styles := map_set ''margin'' (join '' '' (margin context)) (VElement.styles e)\<rparr>),
                None)
          else (existingElement,
                Some (ChildSlotMode
                  ((new_VElement ''span'')
                     \<lparr>VElement.styles := map_set ''margin'' (join '' '' (margin context))
                                  (VElement.styles (new_VElement ''span''))\<rparr>)))
      | None \<Rightarrow>
          (existingElement,
           Some (ChildSlotMode
             ((new_VElement ''span'')
                \<lparr>VElement.styles := map_set ''margin'' (join '' '' (margin context))
                             (VElement.styles (new_VElement ''span''))\<rparr>))))"

section \<open>Errors\<close>

text \<open>
  What the program can throw: the \<open>TypeError\<close> of the language (\<open>reduce\<close> of an empty
  array with no initial value, a property read on \<open>null\<close> or \<open>undefined\<close>), the exceptions
  of the DOM, and whatever a collaborator outside these files throws.
\<close>

datatype error = TypeError | HierarchyRequestError | IndexSizeError | Thrown string

section \<open>Table and list commanders\<close>

text \<open>
  src/lib/lib/toolbar/commands/table.commander.ts.  The world a command runs in is the
  document (the abstract tree with every format matrix, of any type \<open>'d\<close>) and the
  console.  A method returns the commander object and the world as the call leaves them.
\<close>

record ('d, 'l) world =
  document :: 'd
  console :: "'l list"

record TableCommander =
  recordHistory :: bool

definition new_TableCommander :: TableCommander where
  "new_TableCommander = \<lparr>TableCommander.recordHistory = True\<rparr>"

definition TableCommander_updateValue ::
  "'v \<Rightarrow> TableCommander \<times> ('d, 'l) world \<Rightarrow> TableCommander \<times> ('d, 'l) world" where
  "TableCommander_updateValue v cw = cw"

definition TableCommander_command ::
  "'l \<Rightarrow> bool \<Rightarrow> TableCommander \<times> ('d, 'l) world \<Rightarrow> TableCommander \<times> ('d, 'l) world" where
  "TableCommander_command sel ovl cw =
     (fst cw, (snd cw)\<lparr>console := console (snd cw) @ [sel]\<rparr>)"

text \<open>The list commander (src/unnamed/part\_002): its constructor keeps the tag name.\<close>

record ListCommander =
  recordHistory :: bool
  tagName :: string

definition new_ListCommander :: "string \<Rightarrow> ListCommander" where
  "new_ListCommander t = \<lparr>ListCommander.recordHistory = True, ListCommander.tagName = t\<rparr>"

section \<open>The native selection\<close>

text \<open>
  What the program reads of a \<open>Selection\<close> of the DOM: its ranges through \<open>rangeCount\<close>
  and \<open>getRangeAt\<close>, the focus node (\<open>null\<close> is \<open>None\<close>) and offset, and \<open>isCollapsed\<close>.
  \<open>getRangeAt\<close> is only called below \<open>rangeCount\<close>.
\<close>

record 'r Selection =
  range_list :: "'r list"
  focusNode :: "nat option"
  focusOffset :: nat
  isCollapsed :: bool

definition rangeCount :: "'r Selection \<Rightarrow> nat" where
  "rangeCount sel = length (range_list sel)"

definition getRangeAt :: "'r Selection \<Rightarrow> nat \<Rightarrow> 'r" where
  "getRangeAt sel i = range_list sel ! i"

section \<open>Editor (src/unnamed/part\_000)\<close>

text \<open>
  What \<open>Editor\<close> reads of a toolbar handler: the matcher's \<open>match\<close>, the command's
  \<open>format\<close> and its \<open>recordHistory\<close> flag.  Both methods belong to collaborators outside
  these files; \<open>match\<close> reads the edit frame, \<open>format\<close> changes it or throws.
\<close>

record ('c, 'g, 'r) MatchDelta =
  inSingleContainer :: bool
  overlap :: bool
  contain :: bool
  container :: 'c
  config :: 'g
  disable :: bool
  range' :: 'r

record ('s, 'c, 'g, 'r) Handler =
  matcher_match :: "'s \<Rightarrow> 'r \<Rightarrow> ('c, 'g, 'r) MatchDelta"
  execCommand_format :: "'r \<Rightarrow> ('c, 'g, 'r) MatchDelta \<Rightarrow> 's \<Rightarrow> error + 's"
  execCommand_recordHistory :: bool

text \<open>\<open>getRanges\<close>: the ranges of the content document's selection.\<close>

definition getRanges :: "'r Selection \<Rightarrow> 'r list" where
  "getRanges sel = map (getRangeAt sel) [0 ..< rangeCount sel]"

text \<open>\<open>Array.prototype.reduce\<close> with no initial value.\<close>

fun reduce :: "('a \<Rightarrow> 'a \<Rightarrow> 'a) \<Rightarrow> 'a list \<Rightarrow> error + 'a" where
  "reduce f [] = Inl TypeError"
| "reduce f (x # xs) = Inr (foldl f x xs)"

text \<open>The callback of the reduction in \<open>updateToolbarStatus\<close>.\<close>

definition mergeDelta ::
  "('c, 'g, 'r) MatchDelta \<Rightarrow> ('c, 'g, 'r) MatchDelta \<Rightarrow> ('c, 'g, 'r) MatchDelta" where
  "mergeDelta previousValue currentValue =
     \<lparr>inSingleContainer = inSingleContainer previousValue \<and> inSingleContainer currentValue,
      overlap = overlap previousValue \<and> overlap currentValue,
      contain = contain previousValue \<or> contain currentValue,
      container = container currentValue,
      config = config currentValue,
      disable = disable previousValue \<or> disable currentValue,
      range' = range' currentValue\<rparr>"

text \<open>
  \<open>updateToolbarStatus\<close>: the calls of \<open>handler.updateStatus\<close> it makes, in order, each
  with the handler's index in \<open>this.handlers\<close> and the delta it is given.
\<close>

fun updateStatus_calls ::
  "'s \<Rightarrow> 'r list \<Rightarrow> nat \<Rightarrow> ('s, 'c, 'g, 'r) Handler list
     \<Rightarrow> error + (nat \<times> ('c, 'g, 'r) MatchDelta) list" where
  "updateStatus_calls editor ranges i [] = Inr []"
| "updateStatus_calls editor ranges i (handler # handlers) =
     (case reduce mergeDelta (map (matcher_match handler editor) ranges) of
        Inl e \<Rightarrow> Inl e
      | Inr delta \<Rightarrow>
          (case updateStatus_calls editor ranges (Suc i) handlers of
             Inl e \<Rightarrow> Inl e
           | Inr calls \<Rightarrow> Inr ((i, delta) # calls)))"

definition updateToolbarStatus ::
  "'s \<Rightarrow> 'r Selection \<Rightarrow> ('s, 'c, 'g, 'r) Handler list
     \<Rightarrow> error + (nat \<times> ('c, 'g, 'r) MatchDelta) list" where
  "updateToolbarStatus editor sel handlers =
     updateStatus_calls editor (getRanges sel) 0 handlers"

text \<open>
  \<open>apply\<close>.  The edit frame is a state of any type \<open>'s\<close>; the calls that \<open>apply\<close> itself
  makes on it are kept in a log beside it.  \<open>recordSnapshot\<close> and the focus of the
  document body belong to the edit frame and the DOM.
\<close>

datatype 'r call = Format 'r | RecordSnapshot | BodyFocus

record 's frame_ops =
  recordSnapshot :: "'s \<Rightarrow> 's"
  body_focus :: "'s \<Rightarrow> 's"

fun forEach_format ::
  "('s, 'c, 'g, 'r) Handler \<Rightarrow> 'r list \<Rightarrow> 's \<times> 'r call list \<Rightarrow> error + 's \<times> 'r call list" where
  "forEach_format handler [] st = Inr st"
| "forEach_format handler (r # rs) st =
     (case execCommand_format handler r (matcher_match handler (fst st) r) (fst st) of
        Inl e \<Rightarrow> Inl e
      | Inr s' \<Rightarrow> forEach_format handler rs (s', snd st @ [Format r]))"

definition Editor_apply ::
  "'s frame_ops \<Rightarrow> ('s, 'c, 'g, 'r) Handler \<Rightarrow> 'r Selection \<Rightarrow> 's \<times> 'r call list
     \<Rightarrow> error + 's \<times> 'r call list" where
  "Editor_apply ops handler sel st =
     (case forEach_format handler (getRanges sel) st of
        Inl e \<Rightarrow> Inl e
      | Inr st1 \<Rightarrow>
          (let st2 = (if execCommand_recordHistory handler
                      then (recordSnapshot ops (fst st1), snd st1 @ [RecordSnapshot])
                      else st1)
           in Inr (body_focus ops (fst st2), snd st2 @ [BodyFocus])))"

text \<open>
  A handler whose \<open>execCommand\<close> is a \<open>TableCommander\<close> or a \<open>ListCommander\<close>.  The two
  classes have the members \<open>recordHistory\<close>, \<open>updateValue\<close> and \<open>command\<close>, and
  \<open>recordHistory\<close>, \<open>command\<close> and \<open>render\<close>: neither has a \<open>format\<close>.  So
  \<open>handler.execCommand.format\<close> is \<open>undefined\<close>, and the call of it in \<open>apply\<close>, once its
  arguments are evaluated, throws a \<open>TypeError\<close>.  The flag is the one of the object.
\<close>

definition TableCommander_handler ::
  "('s \<Rightarrow> 'r \<Rightarrow> ('c, 'g, 'r) MatchDelta) \<Rightarrow> TableCommander \<Rightarrow> ('s, 'c, 'g, 'r) Handler" where
  "TableCommander_handler m c =
     \<lparr>matcher_match = m,
      execCommand_format = (\<lambda>tbRange delta editor. Inl TypeError),
      execCommand_recordHistory = TableCommander.recordHistory c\<rparr>"

definition ListCommander_handler ::
  "('s \<Rightarrow> 'r \<Rightarrow> ('c, 'g, 'r) MatchDelta) \<Rightarrow> ListCommander \<Rightarrow> ('s, 'c, 'g, 'r) Handler" where
  "ListCommander_handler m c =
     \<lparr>matcher_match = m,
      execCommand_format = (\<lambda>tbRange delta editor. Inl TypeError),
      execCommand_recordHistory = ListCommander.recordHistory c\<rparr>"

text \<open>
  A sample edit frame, a number to which a snapshot adds 100, and a sample matcher.
\<close>

definition sample_frame_ops :: "nat frame_ops" where
  "sample_frame_ops = \<lparr>recordSnapshot = (\<lambda>s. s + 100), body_focus = (\<lambda>s. s)\<rparr>"

definition sample_match :: "nat \<Rightarrow> nat \<Rightarrow> (unit, unit, nat) MatchDelta" where
  "sample_match editor r =
     \<lparr>inSingleContainer = True, overlap = False, contain = False,
      container = (), config = (), disable = False, range' = r\<rparr>"

text \<open>
  The reduction as the specification words it: logical AND over \<open>inSingleContainer\<close> and
  \<open>overlap\<close>, logical OR over \<open>contain\<close> and \<open>disable\<close>, the other fields from the last
  result.
\<close>

definition specDelta :: "('c, 'g, 'r) MatchDelta list \<Rightarrow> ('c, 'g, 'r) MatchDelta" where
  "specDelta ds =
     \<lparr>inSingleContainer = list_all inSingleContainer ds,
      overlap = list_all overlap ds,
      contain = list_ex contain ds,
      container = container (last ds),
      config = config (last ds),
      disable = list_ex disable ds,
      range' = range' (last ds)\<rparr>"

section \<open>Input: the cursor overlay (src/unnamed/part\_000)\<close>

subsection \<open>The native document\<close>

text \<open>
  The content document is read only here: a node has a type, children and a parent.
  A reference always denotes a node, so the document is a total function.
\<close>

type_synonym nodeRef = nat

record dom_node =
  nodeType :: nat
  childNodes :: "nodeRef list"
  parentNode :: "nodeRef option"

definition ELEMENT_NODE :: nat where
  "ELEMENT_NODE = 1"

definition TEXT_NODE :: nat where
  "TEXT_NODE = 3"

subsection \<open>The platform\<close>

text \<open>
  Numbers are the platform's (IEEE doubles with \<open>NaN\<close>); the model takes them as a type
  \<open>'n\<close> with the operations the code uses: the unary \<open>+\<close> on a string, \<open>parseFloat\<close>,
  \<open>isNaN\<close>, the product, the difference, the division by two, \<open>&lt;\<close>, \<open>Math.max\<close> and
  the concatenation \<open>n + 'px'\<close>.  \<open>getComputedStyle\<close> gives the three properties read,
  \<open>getRangePosition\<close> (of \<open>TBRange\<close>, outside these files) the rectangle of a range that
  starts at a node and an offset and is collapsed there.
\<close>

record computed_style =
  fontSize :: string
  lineHeight :: string
  color :: string

record 'n rect =
  rect_left :: 'n
  rect_top :: 'n
  rect_height :: 'n

record 'n platform =
  to_number :: "string \<Rightarrow> 'n"
  parseFloat :: "string \<Rightarrow> 'n"
  isNaN :: "'n \<Rightarrow> bool"
  mul :: "'n \<Rightarrow> 'n \<Rightarrow> 'n"
  sub :: "'n \<Rightarrow> 'n \<Rightarrow> 'n"
  half :: "'n \<Rightarrow> 'n"
  lt :: "'n \<Rightarrow> 'n \<Rightarrow> bool"
  math_max :: "'n \<Rightarrow> 'n \<Rightarrow> 'n"
  px :: "'n \<Rightarrow> string"
  getComputedStyle :: "nodeRef \<Rightarrow> computed_style"
  getRangePosition :: "nodeRef \<times> nat \<Rightarrow> 'n rect"
  isWindows :: bool

subsection \<open>The state of an \<open>Input\<close>\<close>

text \<open>
  The fields of the object and the properties of its elements that the methods write:
  the strings assigned to the style properties, the focus of the textarea, and the
  timers (\<open>setTimeout\<close> gives a fresh identifier and keeps it pending, \<open>clearTimeout\<close>
  drops it).
\<close>

record 'r Input =
  display' :: bool
  cursor_visibility :: string
  flashing :: bool
  timer :: "nat option"
  pending_timers :: "nat list"
  next_timer :: nat
  selection :: "'r Selection option"
  inputWrap_top :: string
  elementRef_left :: string
  elementRef_top :: string
  elementRef_height :: string
  cursor_backgroundColor :: string
  input_lineHeight :: string
  input_fontSize :: string
  input_focused :: bool

definition set_display :: "bool \<Rightarrow> 'r Input \<Rightarrow> 'r Input" where
  "set_display v this =
     this\<lparr>display' := v, cursor_visibility := (if v then ''visible'' else ''hidden'')\<rparr>"

definition clearTimeout :: "nat option \<Rightarrow> 'r Input \<Rightarrow> 'r Input" where
  "clearTimeout t this =
     (case t of None \<Rightarrow> this
      | Some i \<Rightarrow> this\<lparr>pending_timers := removeAll i (pending_timers this)\<rparr>)"

definition setTimeout :: "'r Input \<Rightarrow> nat \<times> 'r Input" where
  "setTimeout this =
     (next_timer this,
      this\<lparr>pending_timers := pending_timers this @ [next_timer this],
           next_timer := Suc (next_timer this)\<rparr>)"

definition input_focus :: "'r Input \<Rightarrow> 'r Input" where
  "input_focus this = this\<lparr>input_focused := True\<rparr>"

definition Input_hide :: "'r Input \<Rightarrow> 'r Input" where
  "Input_hide this = (let this1 = set_display False this in clearTimeout (timer this1) this1)"

definition Input_show :: "'r Input \<Rightarrow> 'r Input" where
  "Input_show this =
     (let this1 = set_display True this;
          this2 = clearTimeout (timer this1) this1;
          (i, this3) = setTimeout this2
      in input_focus (this3\<lparr>timer := Some i\<rparr>))"

subsection \<open>\<open>updateCursorPosition\<close>\<close>

text \<open>
  The start of the range: the focus of the selection, moved to the child at the focus
  offset when the focus node is an element and that child is a text node.  Reading
  \<open>nodeType\<close> of a \<open>null\<close> focus node is a \<open>TypeError\<close>; an offset past the last child
  reads \<open>undefined\<close>, which the optional chaining lets through.
\<close>

definition startPosition :: "(nodeRef \<Rightarrow> dom_node) \<Rightarrow> 'r Selection \<Rightarrow> error + nodeRef \<times> nat" where
  "startPosition doc sel =
     (case focusNode sel of
        None \<Rightarrow> Inl TypeError
      | Some startContainer \<Rightarrow>
          (let startOffset = focusOffset sel in
           if nodeType (doc startContainer) = ELEMENT_NODE
           then (if startOffset < length (childNodes (doc startContainer))
                 then (let offsetNode = childNodes (doc startContainer) ! startOffset in
                       if nodeType (doc offsetNode) = TEXT_NODE
                       then Inr (offsetNode, 0)
                       else Inr (startContainer, startOffset))
                 else Inr (startContainer, startOffset))
           else Inr (startContainer, startOffset)))"

text \<open>
  The element whose computed style is read: the start container when it is an element,
  its parent otherwise; \<open>getComputedStyle\<close> of \<open>null\<close> or of a node that is no element
  is a \<open>TypeError\<close>.
\<close>

definition styleElement :: "(nodeRef \<Rightarrow> dom_node) \<Rightarrow> nodeRef \<Rightarrow> error + nodeRef" where
  "styleElement doc startContainer =
     (if nodeType (doc startContainer) = ELEMENT_NODE then Inr startContainer
      else (case parentNode (doc startContainer) of
              None \<Rightarrow> Inl TypeError
            | Some p \<Rightarrow> if nodeType (doc p) = ELEMENT_NODE then Inr p else Inl TypeError))"

text \<open>
  The local \<open>height\<close>, from the computed \<open>font-size\<close> and \<open>line-height\<close>, and the
  local \<open>boxHeight\<close>.
\<close>

definition cursorHeight :: "('n, 'a) platform_scheme \<Rightarrow> string \<Rightarrow> string \<Rightarrow> 'n" where
  "cursorHeight env fs lh =
     (if isNaN env (to_number env lh)
      then (let f = parseFloat env lh in
            if isNaN env f then parseFloat env fs else f)
      else mul env (parseFloat env fs) (parseFloat env lh))"

definition boxHeight :: "('n, 'a) platform_scheme \<Rightarrow> string \<Rightarrow> string \<Rightarrow> 'n rect \<Rightarrow> 'n" where
  "boxHeight env fs lh rect =
     math_max env (cursorHeight env fs lh) (rect_height rect)"

text \<open>What follows the construction of the range that starts, collapsed, at a position.\<close>

definition placeCursor ::
  "('n, 'a) platform_scheme \<Rightarrow> (nodeRef \<Rightarrow> dom_node) \<Rightarrow> nodeRef \<times> nat \<Rightarrow> 'r Input
     \<Rightarrow> error + 'r Input" where
  "placeCursor env doc start this =
     (let rect = getRangePosition env start in
      case styleElement doc (fst start) of
        Inl e \<Rightarrow> Inl e
      | Inr el \<Rightarrow>
          (let style = getComputedStyle env el;
               this1 = (if isWindows env then this\<lparr>inputWrap_top := fontSize style\<rparr> else this);
               h = cursorHeight env (fontSize style) (lineHeight style);
               bh = boxHeight env (fontSize style) (lineHeight style) rect;
               t = (if lt env (rect_height rect) h
                    then sub env (rect_top rect) (half env (sub env h (rect_height rect)))
                    else rect_top rect)
           in Inr (this1\<lparr>elementRef_left := px env (rect_left rect),
                          elementRef_top := px env t,
                          elementRef_height := px env bh,
                          cursor_backgroundColor := color style,
                          input_lineHeight := px env bh,
                          input_fontSize := fontSize style\<rparr>)))"

definition updateCursorPosition ::
  "('n, 'a) platform_scheme \<Rightarrow> (nodeRef \<Rightarrow> dom_node) \<Rightarrow> 'r Input \<Rightarrow> error + 'r Input" where
  "updateCursorPosition env doc this =
     (case selection this of
        None \<Rightarrow> Inr this
      | Some sel \<Rightarrow>
          if rangeCount sel = 0 then Inr this
          else (case startPosition doc sel of
                  Inl e \<Rightarrow> Inl e
                | Inr start \<Rightarrow> placeCursor env doc start this))"

definition updateStateBySelection ::
  "('n, 'a) platform_scheme \<Rightarrow> (nodeRef \<Rightarrow> dom_node) \<Rightarrow> 'r Selection \<Rightarrow> 'r Input
     \<Rightarrow> error + 'r Input" where
  "updateStateBySelection env doc sel this =
     (let this1 = this\<lparr>selection := Some sel\<rparr> in
      if rangeCount sel = 0 then Inr (Input_hide this1)
      else (case updateCursorPosition env doc this1 of
              Inl e \<Rightarrow> Inl e
            | Inr this2 \<Rightarrow>
                Inr (input_focus (if isCollapsed sel then Input_show this2 else Input_hide this2))))"

subsection \<open>A sample platform\<close>

text \<open>
  A platform to run the model on: a number is \<open>NaN\<close> or a rational; a string of decimal
  digits, with a unit or a word after them for \<open>parseFloat\<close>, is read as JavaScript
  reads it, and a whole number is printed as JavaScript prints it.
\<close>

datatype jsnum = NaN | Num rat

definition digit_of :: "char \<Rightarrow> nat option" where
  "digit_of c = map_of (zip ''0123456789'' [0, 1, 2, 3, 4, 5, 6, 7, 8, 9]) c"

definition is_digit :: "char \<Rightarrow> bool" where
  "is_digit c = (digit_of c \<noteq> None)"

definition digits_value :: "string \<Rightarrow> nat" where
  "digits_value ds = foldl (\<lambda>a c. 10 * a + (case digit_of c of Some d \<Rightarrow> d | None \<Rightarrow> 0)) 0 ds"

definition sample_parseFloat :: "string \<Rightarrow> jsnum" where
  "sample_parseFloat s =
     (case takeWhile is_digit s of [] \<Rightarrow> NaN | d # ds \<Rightarrow> Num (of_nat (digits_value (d # ds))))"

definition sample_to_number :: "string \<Rightarrow> jsnum" where
  "sample_to_number s = (if list_all is_digit s then Num (of_nat (digits_value s)) else NaN)"

fun jsnum_op :: "(rat \<Rightarrow> rat \<Rightarrow> rat) \<Rightarrow> jsnum \<Rightarrow> jsnum \<Rightarrow> jsnum" where
  "jsnum_op f (Num a) (Num b) = Num (f a b)"
| "jsnum_op f a b = NaN"

fun jsnum_lt :: "jsnum \<Rightarrow> jsnum \<Rightarrow> bool" where
  "jsnum_lt (Num a) (Num b) = (a < b)"
| "jsnum_lt a b = False"

fun jsnum_half :: "jsnum \<Rightarrow> jsnum" where
  "jsnum_half (Num a) = Num (a / 2)"
| "jsnum_half NaN = NaN"

fun show_nat :: "nat \<Rightarrow> string" where
  "show_nat n =
     (if n < 10 then [''0123456789'' ! n]
      else show_nat (n div 10) @ [''0123456789'' ! (n mod 10)])"

declare show_nat.simps [simp del]

definition sample_px :: "jsnum \<Rightarrow> string" where
  "sample_px n =
     (case n of
        NaN \<Rightarrow> ''NaNpx''
      | Num q \<Rightarrow>
          (if q < 0 then ''-'' else '''') @ show_nat (nat \<lfloor>\<bar>q\<bar>\<rfloor>)
            @ (if \<bar>q\<bar> = of_int \<lfloor>\<bar>q\<bar>\<rfloor> then ''''
               else if \<bar>q\<bar> - of_int \<lfloor>\<bar>q\<bar>\<rfloor> = 1 / 2 then ''.5'' else ''...'')
            @ ''px'')"

definition sample_platform :: "jsnum platform" where
  "sample_platform =
     \<lparr>to_number = sample_to_number,
      parseFloat = sample_parseFloat,
      isNaN = (\<lambda>n. n = NaN),
      mul = jsnum_op (*),
      sub = jsnum_op (-),
      half = jsnum_half,
      lt = jsnum_lt,
      math_max = jsnum_op max,
      px = sample_px,
      getComputedStyle =
        (\<lambda>_. \<lparr>fontSize = ''16px'', lineHeight = ''normal'', color = ''rgb(0, 0, 0)''\<rparr>),
      getRangePosition = (\<lambda>_. \<lparr>rect_left = Num 8, rect_top = Num 30, rect_height = Num 18\<rparr>),
      isWindows = False\<rparr>"

text \<open>
  A sample document: the element 2 has the text node 3 and the element 4 as children,
  every other node is a text node with no parent.
\<close>

definition sample_doc :: "nodeRef \<Rightarrow> dom_node" where
  "sample_doc r =
     (if r = 2 then \<lparr>nodeType = 1, childNodes = [3, 4], parentNode = None\<rparr>
      else if r = 3 then \<lparr>nodeType = 3, childNodes = [], parentNode = Some 2\<rparr>
      else if r = 4 then \<lparr>nodeType = 1, childNodes = [], parentNode = Some 2\<rparr>
      else \<lparr>nodeType = 3, childNodes = [], parentNode = None\<rparr>)"

definition new_Input :: "'r Input" where
  "new_Input =
     \<lparr>display' = True, cursor_visibility = '''', flashing = True, timer = None,
      pending_timers = [], next_timer = 0, selection = None, inputWrap_top = '''',
      elementRef_left = '''', elementRef_top = '''', elementRef_height = '''',
      cursor_backgroundColor = '''', input_lineHeight = '''', input_fontSize = '''',
      input_focused = False\<rparr>"

section \<open>Format ranges\<close>

text \<open>
  A \<open>FormatRange\<close> as the specification gives it (start and end index, state, abstract
  data, cache data), with the handler that \<open>Single\<close> reads from it (\<open>null\<close> is \<open>None\<close>).
\<close>

datatype FormatState = Valid | Invalid

record ('h, 'c) FormatRange =
  startIndex :: int
  endIndex :: int
  handler :: "'h option"
  state :: FormatState
  abstractData :: FormatAbstractData
  cacheData :: 'c

section \<open>Single (src/lib/lib/parser/single.ts)\<close>

subsection \<open>The DOM that \<open>render\<close> builds\<close>

text \<open>
  Elements are mutable and shared, so they live in a store: a node of the document
  extended with the tag given to \<open>createElement\<close> and the \<open>VIRTUAL\_NODE\<close> property.
  \<open>fresh\<close> is the next reference to allocate.
\<close>

record 'v html_node = dom_node +
  tag_name :: string
  VIRTUAL_NODE :: "'v option"

record 'v dom =
  nodes :: "nodeRef \<Rightarrow> 'v html_node"
  fresh :: nodeRef

definition DOCUMENT_FRAGMENT_NODE :: nat where
  "DOCUMENT_FRAGMENT_NODE = 11"

definition createDocumentFragment :: "'v dom \<Rightarrow> nodeRef \<times> 'v dom" where
  "createDocumentFragment d =
     (fresh d,
      d\<lparr>nodes := (nodes d)(fresh d :=
             \<lparr>nodeType = DOCUMENT_FRAGMENT_NODE, childNodes = [], parentNode = None,
              tag_name = '''', VIRTUAL_NODE = None\<rparr>),
        fresh := Suc (fresh d)\<rparr>)"

definition createElement :: "string \<Rightarrow> 'v dom \<Rightarrow> nodeRef \<times> 'v dom" where
  "createElement t d =
     (fresh d,
      d\<lparr>nodes := (nodes d)(fresh d :=
             \<lparr>nodeType = ELEMENT_NODE, childNodes = [], parentNode = None,
              tag_name = t, VIRTUAL_NODE = None\<rparr>),
        fresh := Suc (fresh d)\<rparr>)"

definition set_VIRTUAL_NODE :: "nodeRef \<Rightarrow> 'v \<Rightarrow> 'v dom \<Rightarrow> 'v dom" where
  "set_VIRTUAL_NODE r v d = d\<lparr>nodes := (nodes d)(r := (nodes d r)\<lparr>VIRTUAL_NODE := Some v\<rparr>)\<rparr>"

text \<open>
  \<open>a\<close> is \<open>n\<close> or an ancestor of \<open>n\<close>: a walk up the parents, at most as long as there are
  allocated nodes.
\<close>

fun inclusive_ancestor :: "nat \<Rightarrow> (nodeRef \<Rightarrow> 'v html_node) \<Rightarrow> nodeRef \<Rightarrow> nodeRef \<Rightarrow> bool" where
  "inclusive_ancestor 0 ns a n = (a = n)"
| "inclusive_ancestor (Suc k) ns a n =
     (a = n \<or> (case parentNode (ns n) of None \<Rightarrow> False
               | Some p \<Rightarrow> inclusive_ancestor k ns a p))"

text \<open>
  \<open>parent.appendChild(child)\<close>: a \<open>HierarchyRequestError\<close> when the child is the parent or
  one of its ancestors; otherwise the child leaves its old parent and becomes the last
  child of the new one.
\<close>

definition detach :: "nodeRef \<Rightarrow> (nodeRef \<Rightarrow> 'v html_node) \<Rightarrow> (nodeRef \<Rightarrow> 'v html_node)" where
  "detach c ns =
     (case parentNode (ns c) of
        None \<Rightarrow> ns
      | Some p \<Rightarrow> ns(p := (ns p)\<lparr>childNodes := removeAll c (childNodes (ns p))\<rparr>))"

definition appendChild :: "nodeRef \<Rightarrow> nodeRef \<Rightarrow> 'v dom \<Rightarrow> error + 'v dom" where
  "appendChild p c d =
     (if inclusive_ancestor (fresh d) (nodes d) c p then Inl HierarchyRequestError
      else (let ns1 = detach c (nodes d);
                ns2 = ns1(p := (ns1 p)\<lparr>childNodes := childNodes (ns1 p) @ [c]\<rparr>);
                ns3 = ns2(c := (ns2 c)\<lparr>parentNode := Some p\<rparr>)
            in Inr (d\<lparr>nodes := ns3\<rparr>)))"

subsection \<open>\<open>Single.render\<close>\<close>

record ('p, 'h, 'c) VMediaNode =
  vm_parent :: 'p
  vm_formats :: "('h, 'c) FormatRange list"
  vm_index :: int

text \<open>
  A \<open>Single\<close>: its parent fragment, its tag name and its format matrix, a \<open>Map\<close> object
  held by reference.
\<close>

record 'p Single =
  parent :: 'p
  tagName :: string
  formatMatrix :: nat

datatype RenderModel = ReplaceModel nodeRef | ChildSlotModel nodeRef

text \<open>
  What \<open>render\<close> calls outside this file: \<open>getCanApplyFormats\<close> on the format matrix,
  \<open>find\<close> of the parent fragment, and \<open>render\<close> of a handler's command, which is given
  the state, the accumulated node and the cache data, may change the DOM or throw, and
  returns a replace model, a child slot model or anything else (\<open>None\<close>).
\<close>

record ('p, 'h, 'c) render_env =
  getCanApplyFormats :: "nat \<Rightarrow> ('h, 'c) FormatRange list"
  Fragment_find :: "'p \<Rightarrow> 'p Single \<Rightarrow> int"
  execCommand_render ::
    "'h \<Rightarrow> FormatState \<Rightarrow> nodeRef option \<Rightarrow> 'c \<Rightarrow> ('p, 'h, 'c) VMediaNode dom
       \<Rightarrow> error + RenderModel option \<times> ('p, 'h, 'c) VMediaNode dom"

text \<open>The locals \<open>container\<close> and \<open>slotContainer\<close> of \<open>render\<close>, and the DOM.\<close>

record 'v render_state =
  container :: "nodeRef option"
  slotContainer :: "nodeRef option"
  the_dom :: "'v dom"

text \<open>The callback of \<open>canApplyFormats.reduce\<close>, with \<open>node\<close> the accumulator.\<close>

definition render_callback ::
  "('p, 'h, 'c) render_env \<Rightarrow> ('p, 'h, 'c) VMediaNode
     \<Rightarrow> nodeRef option \<times> ('p, 'h, 'c) VMediaNode render_state \<Rightarrow> ('h, 'c) FormatRange
     \<Rightarrow> error + nodeRef option \<times> ('p, 'h, 'c) VMediaNode render_state" where
  "render_callback env vNode acc next =
     (case handler next of
        None \<Rightarrow> Inr acc
      | Some h \<Rightarrow>
          (case execCommand_render env h (state next) (fst acc) (cacheData next)
                  (the_dom (snd acc)) of
             Inl e \<Rightarrow> Inl e
           | Inr (renderModel, d1) \<Rightarrow>
               (case renderModel of
                  Some (ReplaceModel replaceElement) \<Rightarrow>
                    Inr (Some replaceElement,
                         \<lparr>container = Some replaceElement,
                          slotContainer = Some replaceElement,
                          the_dom = set_VIRTUAL_NODE replaceElement vNode d1\<rparr>)
                | Some (ChildSlotModel slotElement) \<Rightarrow>
                    (case fst acc of
                       Some node \<Rightarrow>
                         (case appendChild node slotElement d1 of
                            Inl e \<Rightarrow> Inl e
                          | Inr d2 \<Rightarrow>
                              Inr (Some slotElement,
                                   \<lparr>container = container (snd acc),
                                    slotContainer = Some slotElement,
                                    the_dom = set_VIRTUAL_NODE slotElement vNode d2\<rparr>))
                     | None \<Rightarrow>
                         Inr (Some slotElement,
                              \<lparr>container = Some slotElement,
                               slotContainer = Some slotElement,
                               the_dom = set_VIRTUAL_NODE slotElement vNode d1\<rparr>))
                | None \<Rightarrow> Inr (fst acc, (snd acc)\<lparr>the_dom := d1\<rparr>))))"

text \<open>\<open>Array.prototype.reduce\<close> with an initial value and a callback that may throw.\<close>

fun reduce_from :: "('a \<Rightarrow> 'b \<Rightarrow> error + 'a) \<Rightarrow> 'a \<Rightarrow> 'b list \<Rightarrow> error + 'a" where
  "reduce_from f a [] = Inr a"
| "reduce_from f a (x # xs) = (case f a x of Inl e \<Rightarrow> Inl e | Inr a' \<Rightarrow> reduce_from f a' xs)"

text \<open>The virtual node and the bare element that \<open>render\<close> starts from.\<close>

definition render_vNode ::
  "('p, 'h, 'c) render_env \<Rightarrow> 'p Single \<Rightarrow> ('p, 'h, 'c) VMediaNode" where
  "render_vNode env this =
     \<lparr>vm_parent = parent this,
      vm_formats = getCanApplyFormats env (formatMatrix this),
      vm_index = Fragment_find env (parent this) this\<rparr>"

definition render_start ::
  "('p, 'h, 'c) render_env \<Rightarrow> 'p Single \<Rightarrow> ('p, 'h, 'c) VMediaNode dom
     \<Rightarrow> nodeRef \<times> nodeRef \<times> ('p, 'h, 'c) VMediaNode dom" where
  "render_start env this d =
     (let (host, d1) = createDocumentFragment d;
          (el, d2) = createElement (Single.tagName this) d1
      in (host, el, set_VIRTUAL_NODE el (render_vNode env this) d2))"

definition Single_render ::
  "('p, 'h, 'c) render_env \<Rightarrow> 'p Single \<Rightarrow> ('p, 'h, 'c) VMediaNode dom
     \<Rightarrow> error + nodeRef \<times> ('p, 'h, 'c) VMediaNode dom" where
  "Single_render env this d =
     (let (host, el, d3) = render_start env this d in
      case reduce_from (render_callback env (render_vNode env this))
             (Some el, \<lparr>container = None, slotContainer = None, the_dom = d3\<rparr>)
             (getCanApplyFormats env (formatMatrix this)) of
        Inl e \<Rightarrow> Inl e
      | Inr (node, st) \<Rightarrow>
          (case node of
             Some n \<Rightarrow>
               (case appendChild host n (the_dom st) of
                  Inl e \<Rightarrow> Inl e
                | Inr d4 \<Rightarrow> Inr (host, d4))
           | None \<Rightarrow> Inr (host, the_dom st)))"

subsection \<open>The fold in the words of the specification\<close>

text \<open>
  One step on the accumulated node and the DOM: a replace model discards the
  accumulated node for the replacement element; a child slot is appended to the
  accumulated node, or is the root when there is none, and becomes the accumulated
  node; both elements get the virtual node.  Anything else leaves the accumulated node.
\<close>

definition fold_step ::
  "('p, 'h, 'c) render_env \<Rightarrow> ('p, 'h, 'c) VMediaNode
     \<Rightarrow> nodeRef option \<times> ('p, 'h, 'c) VMediaNode dom \<Rightarrow> ('h, 'c) FormatRange
     \<Rightarrow> error + nodeRef option \<times> ('p, 'h, 'c) VMediaNode dom" where
  "fold_step env vNode acc next =
     (case handler next of
        None \<Rightarrow> Inr acc
      | Some h \<Rightarrow>
          (case execCommand_render env h (state next) (fst acc) (cacheData next) (snd acc) of
             Inl e \<Rightarrow> Inl e
           | Inr (Some (ReplaceModel e), d1) \<Rightarrow> Inr (Some e, set_VIRTUAL_NODE e vNode d1)
           | Inr (Some (ChildSlotModel e), d1) \<Rightarrow>
               (case fst acc of
                  None \<Rightarrow> Inr (Some e, set_VIRTUAL_NODE e vNode d1)
                | Some node \<Rightarrow>
                    (case appendChild node e d1 of
                       Inl err \<Rightarrow> Inl err
                     | Inr d2 \<Rightarrow> Inr (Some e, set_VIRTUAL_NODE e vNode d2)))
           | Inr (None, d1) \<Rightarrow> Inr (fst acc, d1)))"

text \<open>
  The fresh host fragment is a local of \<open>render\<close>: no command can reach it.  A DOM is
  \<open>apart\<close> from an allocated node when the node has no child and no parent and is no
  node's parent; a command \<open>keeps apart\<close> when its \<open>render\<close> leaves such a DOM so and
  returns another element.
\<close>

definition apart :: "nodeRef \<Rightarrow> 'v dom \<Rightarrow> bool" where
  "apart host d =
     (host < fresh d \<and> childNodes (nodes d host) = [] \<and> parentNode (nodes d host) = None
      \<and> (\<forall>r. parentNode (nodes d r) \<noteq> Some host))"

definition keeps_apart :: "('p, 'h, 'c) render_env \<Rightarrow> nodeRef \<Rightarrow> bool" where
  "keeps_apart env host =
     (\<forall>h s node c d m d'.
        apart host d \<and> node \<noteq> Some host
          \<and> execCommand_render env h s node c d = Inr (m, d')
        \<longrightarrow> apart host d' \<and> m \<noteq> Some (ReplaceModel host) \<and> m \<noteq> Some (ChildSlotModel host))"

text \<open>The result of the code's callback without the two locals.\<close>

definition on_dom ::
  "error + nodeRef option \<times> 'v render_state \<Rightarrow> error + nodeRef option \<times> 'v dom" where
  "on_dom r = (case r of Inl e \<Rightarrow> Inl e | Inr (n, st) \<Rightarrow> Inr (n, the_dom st))"

subsection \<open>A sample rendering\<close>

text \<open>
  Three commands: command 0 makes a new \<open>span\<close> and returns it as a child slot,
  command 1 makes a new \<open>strong\<close> and returns it as a replacement, any other command
  returns \<open>null\<close>.  The formats to apply are those of the commands 0, 1, none, 2 and 0.
\<close>

definition sample_format :: "nat option \<Rightarrow> (nat, unit) FormatRange" where
  "sample_format h =
     \<lparr>startIndex = 0, endIndex = 1, handler = h, state = Valid,
      abstractData = \<lparr>tag = '''', attrs = [], FormatAbstractData.styles = [], classes = []\<rparr>,
      cacheData = ()\<rparr>"

definition sample_render_env :: "(unit, nat, unit) render_env" where
  "sample_render_env =
     \<lparr>getCanApplyFormats =
        (\<lambda>_. [sample_format (Some 0), sample_format (Some 1), sample_format None,
               sample_format (Some 2), sample_format (Some 0)]),
      Fragment_find = (\<lambda>_ _. 0),
      execCommand_render =
        (\<lambda>h s node c d.
           if h = 0 then Inr (Some (ChildSlotModel (fresh d)), snd (createElement ''span'' d))
           else if h = 1
           then Inr (Some (ReplaceModel (fresh d)), snd (createElement ''strong'' d))
           else Inr (None, d))\<rparr>"

definition empty_dom :: "'v dom" where
  "empty_dom =
     \<lparr>nodes = (\<lambda>_. \<lparr>nodeType = ELEMENT_NODE, childNodes = [], parentNode = None,
                     tag_name = '''', VIRTUAL_NODE = None\<rparr>),
      fresh = 0\<rparr>"

definition sample_single :: "unit Single" where
  "sample_single = \<lparr>parent = (), Single.tagName = ''img'', formatMatrix = 0\<rparr>"

subsection \<open>Objects: the heap that \<open>clone\<close> works on\<close>

text \<open>
  \<open>clone\<close> is about sharing, so the objects it touches live in a heap: a
  \<open>FormatAbstractData\<close>, a \<open>FormatRange\<close> (start index, end index, handler, state, a
  reference to its abstract data, cache data), an array of references to format ranges,
  a \<open>Map\<close> from handlers to references to arrays in insertion order, and a \<open>Single\<close>.
  \<open>next_ref\<close> is the next reference to allocate.
\<close>

datatype ('p, 'h, 'c) obj =
    DataObj FormatAbstractData
  | RangeObj int int "'h option" FormatState nat 'c
  | ArrayObj "nat list"
  | MapObj "('h option \<times> nat) list"
  | SingleObj "'p Single"

record ('p, 'h, 'c) heap =
  cells :: "nat \<Rightarrow> ('p, 'h, 'c) obj option"
  next_ref :: nat

definition alloc :: "('p, 'h, 'c) obj \<Rightarrow> ('p, 'h, 'c) heap \<Rightarrow> nat \<times> ('p, 'h, 'c) heap" where
  "alloc ob h =
     (next_ref h, h\<lparr>cells := (cells h)(next_ref h \<mapsto> ob), next_ref := Suc (next_ref h)\<rparr>)"

text \<open>\<open>Map.prototype.set\<close> on the entries of a map: replace in place, or append.\<close>

fun entries_set :: "'k \<Rightarrow> 'a \<Rightarrow> ('k \<times> 'a) list \<Rightarrow> ('k \<times> 'a) list" where
  "entries_set k v [] = [(k, v)]"
| "entries_set k v ((k', v') # m) =
     (if k' = k then (k, v) # m else (k', v') # entries_set k v m)"

text \<open>
  Modelled from the spec: \<open>FormatRange.clone\<close>, whose class is not among the files at hand
  (``\<open>clone()\<close> gives an independent copy, deep for abstractData structures, since later
  mutation must not alias'').  The copy is a new format range with the same fields and
  a new abstract data object of the same content.  Calling it on something that is no
  format range is a \<open>TypeError\<close>.
\<close>

definition FormatRange_clone ::
  "('p, 'h, 'c) heap \<Rightarrow> nat \<Rightarrow> error + nat \<times> ('p, 'h, 'c) heap" where
  "FormatRange_clone h f =
     (case cells h f of
        Some (RangeObj s e k st a c) \<Rightarrow>
          (case cells h a of
             Some (DataObj v) \<Rightarrow>
               (let (a', h1) = alloc (DataObj v) h;
                    (f', h2) = alloc (RangeObj s e k st a' c) h1
                in Inr (f', h2))
           | _ \<Rightarrow> Inl TypeError)
      | _ \<Rightarrow> Inl TypeError)"

text \<open>\<open>array.map(f => f.clone())\<close>: the clones in order; the new array is allocated next.\<close>

fun map_clone :: "('p, 'h, 'c) heap \<Rightarrow> nat list \<Rightarrow> error + nat list \<times> ('p, 'h, 'c) heap" where
  "map_clone h [] = Inr ([], h)"
| "map_clone h (f # fs) =
     (case FormatRange_clone h f of
        Inl e \<Rightarrow> Inl e
      | Inr (f', h1) \<Rightarrow>
          (case map_clone h1 fs of
             Inl e \<Rightarrow> Inl e
           | Inr (fs', h2) \<Rightarrow> Inr (f' # fs', h2)))"

text \<open>
  The body of the \<open>forEach\<close> over the keys of \<open>this.formatMatrix\<close> (the map \<open>m\<close>), writing
  into \<open>s.formatMatrix\<close> (the map \<open>m'\<close>).  \<open>get\<close> of a missing key is \<open>undefined\<close>, and
  \<open>map\<close> of it a \<open>TypeError\<close>.
\<close>

definition clone_key ::
  "nat \<Rightarrow> nat \<Rightarrow> ('p, 'h, 'c) heap \<Rightarrow> 'h option \<Rightarrow> error + ('p, 'h, 'c) heap" where
  "clone_key m m' h key =
     (case cells h m of
        Some (MapObj kvs) \<Rightarrow>
          (case map_of kvs key of
             None \<Rightarrow> Inl TypeError
           | Some a \<Rightarrow>
               (case cells h a of
                  Some (ArrayObj fs) \<Rightarrow>
                    (case map_clone h fs of
                       Inl e \<Rightarrow> Inl e
                     | Inr (fs', h1) \<Rightarrow>
                         (let (a', h2) = alloc (ArrayObj fs') h1 in
                          case cells h2 m' of
                            Some (MapObj kvs') \<Rightarrow>
                              Inr (h2\<lparr>cells := (cells h2)(m' \<mapsto>
                                         MapObj (entries_set key a' kvs'))\<rparr>)
                          | _ \<Rightarrow> Inl TypeError))
                | _ \<Rightarrow> Inl TypeError))
      | _ \<Rightarrow> Inl TypeError)"

text \<open>
  \<open>Single.clone\<close>.  \<open>new Single(parent, tagName)\<close> makes the object with the empty map of
  its field initialiser; \<open>clone\<close> then gives it another empty map and fills it key by
  key.
\<close>

definition Single_clone ::
  "('p, 'h, 'c) heap \<Rightarrow> nat \<Rightarrow> error + nat \<times> ('p, 'h, 'c) heap" where
  "Single_clone h this =
     (case cells h this of
        Some (SingleObj x) \<Rightarrow>
          (let (m0, h1) = alloc (MapObj []) h;
               (s, h2) = alloc (SingleObj \<lparr>parent = parent x, Single.tagName = Single.tagName x,
                                           formatMatrix = m0\<rparr>) h1;
               (m', h3) = alloc (MapObj []) h2;
               h4 = h3\<lparr>cells := (cells h3)(s \<mapsto>
                       SingleObj \<lparr>parent = parent x, Single.tagName = Single.tagName x,
                                  formatMatrix = m'\<rparr>)\<rparr>
           in case cells h4 (formatMatrix x) of
                Some (MapObj kvs) \<Rightarrow>
                  (case reduce_from (clone_key (formatMatrix x) m') h4 (map fst kvs) of
                     Inl e \<Rightarrow> Inl e
                   | Inr h5 \<Rightarrow> Inr (s, h5))
              | _ \<Rightarrow> Inl TypeError)
      | _ \<Rightarrow> Inl TypeError)"

subsection \<open>What an object is worth, and what it reaches\<close>

text \<open>
  The deep value of a format range, of an array, of a format matrix (a map with distinct
  keys) and of a \<open>Single\<close>: \<open>None\<close> when a reference does not lead to an object of the
  expected class.
\<close>

definition range_value ::
  "('p, 'h, 'c) heap \<Rightarrow> nat \<Rightarrow> ('h, 'c) FormatRange option" where
  "range_value h f =
     (case cells h f of
        Some (RangeObj s e k st a c) \<Rightarrow>
          (case cells h a of
             Some (DataObj v) \<Rightarrow>
               Some \<lparr>startIndex = s, endIndex = e, handler = k, state = st,
                     abstractData = v, cacheData = c\<rparr>
           | _ \<Rightarrow> None)
      | _ \<Rightarrow> None)"

definition array_value ::
  "('p, 'h, 'c) heap \<Rightarrow> nat \<Rightarrow> ('h, 'c) FormatRange list option" where
  "array_value h a =
     (case cells h a of
        Some (ArrayObj fs) \<Rightarrow> those (map (range_value h) fs)
      | _ \<Rightarrow> None)"

definition entry_value ::
  "('p, 'h, 'c) heap \<Rightarrow> 'h option \<times> nat \<Rightarrow> ('h option \<times> ('h, 'c) FormatRange list) option" where
  "entry_value h kv = map_option (Pair (fst kv)) (array_value h (snd kv))"

definition matrix_value ::
  "('p, 'h, 'c) heap \<Rightarrow> nat \<Rightarrow> ('h option \<times> ('h, 'c) FormatRange list) list option" where
  "matrix_value h m =
     (case cells h m of
        Some (MapObj kvs) \<Rightarrow>
          if distinct (map fst kvs) then those (map (entry_value h) kvs) else None
      | _ \<Rightarrow> None)"

definition single_value ::
  "('p, 'h, 'c) heap \<Rightarrow> nat
     \<Rightarrow> ('p \<times> string \<times> ('h option \<times> ('h, 'c) FormatRange list) list) option" where
  "single_value h s =
     (case cells h s of
        Some (SingleObj x) \<Rightarrow>
          map_option (\<lambda>mv. (parent x, Single.tagName x, mv)) (matrix_value h (formatMatrix x))
      | _ \<Rightarrow> None)"

text \<open>The references an object reaches, itself first.\<close>

definition range_refs :: "('p, 'h, 'c) heap \<Rightarrow> nat \<Rightarrow> nat list" where
  "range_refs h f =
     f # (case cells h f of Some (RangeObj s e k st a c) \<Rightarrow> [a] | _ \<Rightarrow> [])"

definition array_refs :: "('p, 'h, 'c) heap \<Rightarrow> nat \<Rightarrow> nat list" where
  "array_refs h a =
     a # (case cells h a of Some (ArrayObj fs) \<Rightarrow> concat (map (range_refs h) fs) | _ \<Rightarrow> [])"

definition matrix_refs :: "('p, 'h, 'c) heap \<Rightarrow> nat \<Rightarrow> nat list" where
  "matrix_refs h m =
     m # (case cells h m of
            Some (MapObj kvs) \<Rightarrow> concat (map (\<lambda>kv. array_refs h (snd kv)) kvs)
          | _ \<Rightarrow> [])"

definition single_refs :: "('p, 'h, 'c) heap \<Rightarrow> nat \<Rightarrow> nat list" where
  "single_refs h s =
     s # (case cells h s of Some (SingleObj x) \<Rightarrow> matrix_refs h (formatMatrix x) | _ \<Rightarrow> [])"

text \<open>Two heaps agree below a reference when they hold the same objects there.\<close>

definition agree :: "nat \<Rightarrow> ('p, 'h, 'c) heap \<Rightarrow> ('p, 'h, 'c) heap \<Rightarrow> bool" where
  "agree n h h' = (\<forall>r. r < n \<longrightarrow> cells h' r = cells h r)"

text \<open>
  A sample heap: a \<open>Single\<close> (4) whose matrix (3) maps the handler 7 to an array (2) of one
  format range (1) with its abstract data (0).
\<close>

definition sample_range :: "(nat, unit) FormatRange" where
  "sample_range =
     \<lparr>startIndex = 0, endIndex = 5, handler = Some 7, state = Valid,
      abstractData = \<lparr>tag = ''strong'', attrs = [], FormatAbstractData.styles = [],
                      classes = []\<rparr>,
      cacheData = ()\<rparr>"

definition sample_heap :: "(unit, nat, unit) heap" where
  "sample_heap =
     \<lparr>cells = map_of
        [(0, DataObj \<lparr>tag = ''strong'', attrs = [], FormatAbstractData.styles = [],
                       classes = []\<rparr>),
         (1, RangeObj 0 5 (Some 7) Valid 0 ()),
         (2, ArrayObj [1]),
         (3, MapObj [(Some 7, 2)]),
         (4, SingleObj \<lparr>parent = (), Single.tagName = ''img'', formatMatrix = 3\<rparr>)],
      next_ref = 5\<rparr>"

section \<open>Merging a format into a matrix\<close>


text \<open>Two ranges overlap when their half-open intervals have an index in common.\<close>

definition overlaps :: "('h, 'c) FormatRange \<Rightarrow> ('h, 'c) FormatRange \<Rightarrow> bool" where
  "overlaps a b = (max (startIndex a) (startIndex b) < min (endIndex a) (endIndex b))"









text \<open>
  The invariant: under every key, no two stored ranges overlap and the ranges are in
  the order of their start indices.
\<close>

fun no_overlap :: "('h, 'c) FormatRange list \<Rightarrow> bool" where
  "no_overlap [] = True"
| "no_overlap (x # xs) = (list_all (\<lambda>y. \<not> overlaps x y) xs \<and> no_overlap xs)"





section \<open>Properties\<close>

lemma map_of_map_set: "map_of (map_set k v m) k = Some v"
  by (induction m) auto

lemma margin_marginLeft_only:
  assumes "map_of (FormatAbstractData.styles (FormatRendingContext.abstractData context)) ''marginLeft'' = Some ''10px''"
    and "map_of (FormatAbstractData.styles (FormatRendingContext.abstractData context)) ''marginTop'' = None"
    and "map_of (FormatAbstractData.styles (FormatRendingContext.abstractData context)) ''marginRight'' = None"
    and "map_of (FormatAbstractData.styles (FormatRendingContext.abstractData context)) ''marginBottom'' = None"
  shows "join '' '' (margin context) = ''0 0 10px 0''"
  using assms by (simp add: margin_def or_zero_def)

subsection \<open>Margin formatter\<close>

text \<open>
  Claim C2.  When the styles of the abstract data hold \<open>marginLeft = 10px\<close> and no other
  margin side, the margin string that \<open>render\<close> assembles from
  \<open>[marginTop, marginRight, marginLeft, marginBottom]\<close>, each missing value replaced by
  \<open>0\<close>, is exactly \<open>0 0 10px 0\<close>.  Without an existing element, or with one whose tag
  the formatter's expression does not match, the result is a child slot holding a new
  \<open>span\<close> whose only style is that margin, and the existing element is left as it was.
  With a matching existing element, the margin is written into that element's styles and
  the result is \<open>null\<close>.
\<close>

theorem MarginFormatter_render_marginLeft:
  assumes "map_of (FormatAbstractData.styles (FormatRendingContext.abstractData context)) ''marginLeft'' = Some ''10px''"
    and "map_of (FormatAbstractData.styles (FormatRendingContext.abstractData context)) ''marginTop'' = None"
    and "map_of (FormatAbstractData.styles (FormatRendingContext.abstractData context)) ''marginRight'' = None"
    and "map_of (FormatAbstractData.styles (FormatRendingContext.abstractData context)) ''marginBottom'' = None"
  shows "join '' '' (margin context) = ''0 0 10px 0''
    \<and> MarginFormatter_render f context None =
        (None, Some (ChildSlotMode \<lparr>VElement.tagName = ''span'', VElement.styles = [(''margin'', ''0 0 10px 0'')]\<rparr>))
    \<and> (\<forall>e. \<not> reg_test f (VElement.tagName e) \<longrightarrow>
          MarginFormatter_render f context (Some e) =
            (Some e,
             Some (ChildSlotMode \<lparr>VElement.tagName = ''span'', VElement.styles = [(''margin'', ''0 0 10px 0'')]\<rparr>)))
    \<and> (\<forall>e. reg_test f (VElement.tagName e) \<longrightarrow>
          MarginFormatter_render f context (Some e) =
            (Some (e\<lparr>VElement.styles := map_set ''margin'' ''0 0 10px 0'' (VElement.styles e)\<rparr>), None)
          \<and> map_of (map_set ''margin'' ''0 0 10px 0'' (VElement.styles e)) ''margin''
              = Some ''0 0 10px 0'')"
proof -
  have m: "join '' '' (margin context) = ''0 0 10px 0''"
    using assms by (rule margin_marginLeft_only)
  show ?thesis
    by (simp add: m MarginFormatter_render_def new_VElement_def map_of_map_set)
qed

theorem MarginFormatter_render_marginLeft_witness:
  "map_of [(''marginLeft'', ''10px'')] ''marginLeft'' = Some ''10px''
   \<and> map_of [(''marginLeft'', ''10px'')] ''marginTop'' = None
   \<and> map_of [(''marginLeft'', ''10px'')] ''marginRight'' = None
   \<and> map_of [(''marginLeft'', ''10px'')] ''marginBottom'' = None
   \<and> reg_test InlineMarginFormatter ''STRONG''
   \<and> \<not> reg_test InlineMarginFormatter ''div''
   \<and> MarginFormatter_render InlineMarginFormatter
        \<lparr>FormatRendingContext.abstractData = \<lparr>tag = ''span'', attrs = [],
            FormatAbstractData.styles = [(''marginLeft'', ''10px'')], classes = []\<rparr>\<rparr>
        (Some \<lparr>VElement.tagName = ''STRONG'', VElement.styles = [(''color'', ''red''), (''margin'', ''1px'')]\<rparr>)
       = (Some \<lparr>VElement.tagName = ''STRONG'',
                 VElement.styles = [(''color'', ''red''), (''margin'', ''0 0 10px 0'')]\<rparr>, None)
   \<and> MarginFormatter_render InlineMarginFormatter
        \<lparr>FormatRendingContext.abstractData = \<lparr>tag = ''span'', attrs = [],
            FormatAbstractData.styles = [(''marginLeft'', ''10px'')], classes = []\<rparr>\<rparr>
        (Some \<lparr>VElement.tagName = ''div'', VElement.styles = []\<rparr>)
       = (Some \<lparr>VElement.tagName = ''div'', VElement.styles = []\<rparr>,
          Some (ChildSlotMode \<lparr>VElement.tagName = ''span'', VElement.styles = [(''margin'', ''0 0 10px 0'')]\<rparr>))"
proof -
  have r1: "reg_test InlineMarginFormatter ''STRONG''"
    by (simp add: reg_test_def inlineTags_def lower_string_def lower_char_def)
  have r2: "\<not> reg_test InlineMarginFormatter ''div''"
    by (simp add: reg_test_def inlineTags_def lower_string_def lower_char_def)
  show ?thesis
    using r1 r2
      MarginFormatter_render_marginLeft
        [of "\<lparr>FormatRendingContext.abstractData = \<lparr>tag = ''span'', attrs = [],
              FormatAbstractData.styles = [(''marginLeft'', ''10px'')], classes = []\<rparr>\<rparr>"
            InlineMarginFormatter]
    by simp
qed

subsection \<open>Table commander\<close>

text \<open>
  Claim C10.  For every selection and either value of the overlap flag,
  \<open>TableCommander.command\<close> leaves the document (the abstract tree and every format
  matrix) and the commander as they were and only appends the selection to the console,
  although the commander declares \<open>recordHistory = true\<close>; \<open>updateValue\<close> changes nothing.
\<close>

theorem TableCommander_command_frame:
  "document (snd (TableCommander_command sel ovl (c, w))) = document w
   \<and> console (snd (TableCommander_command sel ovl (c, w))) = console w @ [sel]
   \<and> fst (TableCommander_command sel ovl (c, w)) = c
   \<and> TableCommander.recordHistory new_TableCommander = True
   \<and> TableCommander_updateValue v (c, w) = (c, w)"
  by (simp add: TableCommander_command_def TableCommander_updateValue_def
      new_TableCommander_def)

subsection \<open>Editor: toolbar status\<close>

lemma getRanges_eq: "getRanges sel = range_list sel"
proof -
  have "getRangeAt sel = (\<lambda>i. range_list sel ! i)"
    by (simp add: fun_eq_iff getRangeAt_def)
  then show ?thesis
    by (simp add: getRanges_def rangeCount_def map_nth)
qed

lemma specDelta_mergeDelta:
  "specDelta (mergeDelta x a # xs) = specDelta (x # a # xs)"
  by (cases xs) (auto simp: specDelta_def mergeDelta_def)

lemma specDelta_single: "specDelta [x] = x"
  by (simp add: specDelta_def rangeCount_def)

lemma foldl_mergeDelta: "foldl mergeDelta x xs = specDelta (x # xs)"
proof (induction xs arbitrary: x)
  case Nil
  show ?case by (simp add: specDelta_single)
next
  case (Cons a xs)
  have "foldl mergeDelta x (a # xs) = foldl mergeDelta (mergeDelta x a) xs" by simp
  also have "\<dots> = specDelta (mergeDelta x a # xs)" by (rule Cons.IH)
  also have "\<dots> = specDelta (x # a # xs)" by (rule specDelta_mergeDelta)
  finally show ?case .
qed

lemma reduce_mergeDelta: "ds \<noteq> [] \<Longrightarrow> reduce mergeDelta ds = Inr (specDelta ds)"
  by (cases ds) (simp_all add: foldl_mergeDelta)

lemma updateStatus_calls_eq:
  "ranges \<noteq> [] \<Longrightarrow>
   updateStatus_calls editor ranges i handlers =
     Inr (zip [i ..< i + length handlers]
            (map (\<lambda>hdl. specDelta (map (matcher_match hdl editor) ranges)) handlers))"
proof (induction handlers arbitrary: i)
  case Nil
  show ?case by simp
next
  case (Cons h hs)
  have r: "reduce mergeDelta (map (matcher_match h editor) ranges)
             = Inr (specDelta (map (matcher_match h editor) ranges))"
    using Cons.prems by (simp add: reduce_mergeDelta)
  have u: "[i ..< i + length (h # hs)] = i # [Suc i ..< Suc i + length hs]"
    by (subst upt_rec) simp
  show ?case
    using Cons.IH [OF Cons.prems, of "Suc i"] by (simp only: updateStatus_calls.simps r u) simp
qed

text \<open>
  Claim C6.  For a selection with at least one range (\<open>rangeCount\<close> is not zero), \<open>updateToolbarStatus\<close> calls
  \<open>updateStatus\<close> once for each handler, in order, and the delta it passes is the
  reduction of the handler's match results over the ranges: AND for \<open>inSingleContainer\<close>
  and \<open>overlap\<close>, OR for \<open>contain\<close> and \<open>disable\<close>, and \<open>container\<close>, \<open>config\<close> and \<open>range\<close>
  of the last range's result.
\<close>

theorem updateToolbarStatus_delta:
  assumes "rangeCount sel \<noteq> 0"
  shows "updateToolbarStatus editor sel handlers =
     Inr (zip [0 ..< length handlers]
            (map (\<lambda>hdl. specDelta (map (matcher_match hdl editor) (range_list sel)))
               handlers))"
proof -
  have "range_list sel \<noteq> []"
    using assms by (simp add: rangeCount_def)
  then show ?thesis
    using updateStatus_calls_eq [of "range_list sel" editor 0 handlers]
    by (simp add: updateToolbarStatus_def getRanges_eq)
qed

theorem updateToolbarStatus_delta_witness:
  "rangeCount \<lparr>range_list = [3, 5 :: nat], focusNode = None, focusOffset = 0,
                isCollapsed = False\<rparr> \<noteq> 0
   \<and> updateToolbarStatus ()
       \<lparr>range_list = [3, 5 :: nat], focusNode = None, focusOffset = 0, isCollapsed = False\<rparr>
       [\<lparr>matcher_match = (\<lambda>_ r. \<lparr>inSingleContainer = True, overlap = (r = 3), contain = (r = 5),
                                   container = r + 1, config = ''bold'', disable = False,
                                   range' = r\<rparr>),
         execCommand_format = (\<lambda>_ _ s. Inr s),
         execCommand_recordHistory = True\<rparr>]
     = Inr [(0, \<lparr>inSingleContainer = True, overlap = False, contain = True,
                 container = 6, config = ''bold'', disable = False, range' = 5\<rparr>)]"
  using updateToolbarStatus_delta
    [of "\<lparr>range_list = [3, 5 :: nat], focusNode = None, focusOffset = 0, isCollapsed = False\<rparr>"
      "()"
      "[\<lparr>matcher_match = (\<lambda>_ r. \<lparr>inSingleContainer = True, overlap = (r = 3), contain = (r = 5),
                                   container = r + 1, config = ''bold'', disable = False,
                                   range' = r\<rparr>),
         execCommand_format = (\<lambda>_ _ s. Inr s),
         execCommand_recordHistory = True\<rparr>]"]
  by (simp add: specDelta_def rangeCount_def)

subsection \<open>Editor: apply and the undo history\<close>

lemma forEach_format_log:
  "forEach_format hdl rs st = Inr st' \<Longrightarrow> snd st' = snd st @ map Format rs"
proof (induction rs arbitrary: st)
  case Nil
  then show ?case by simp
next
  case (Cons r rs)
  then show ?case
    by (cases "execCommand_format hdl r (matcher_match hdl (fst st) r) (fst st)")
      (auto dest!: Cons.IH)
qed

lemma forEach_format_total:
  "(\<And>r d s. \<exists>s'. execCommand_format hdl r d s = Inr s') \<Longrightarrow>
   \<exists>st'. forEach_format hdl rs st = Inr st'"
proof (induction rs arbitrary: st)
  case Nil
  show ?case by simp
next
  case (Cons r rs)
  obtain s' where
    s': "execCommand_format hdl r (matcher_match hdl (fst st) r) (fst st) = Inr s'"
    using Cons.prems by blast
  show ?case
    using Cons.IH [OF Cons.prems, of "(s', snd st @ [Format r])"] by (simp add: s')
qed

lemma Editor_apply_log:
  assumes "Editor_apply ops hdl sel st = Inr st'"
  shows "snd st' = snd st @ map Format (range_list sel)
           @ (if execCommand_recordHistory hdl then [RecordSnapshot] else [])
           @ [BodyFocus]"
proof (cases "forEach_format hdl (getRanges sel) st")
  case (Inl e)
  with assms show ?thesis by (simp add: Editor_apply_def)
next
  case (Inr st1)
  have l: "snd st1 = snd st @ map Format (range_list sel)"
    using forEach_format_log [OF Inr] by (simp add: getRanges_eq)
  show ?thesis
    using assms by (auto simp: Editor_apply_def Inr l Let_def split: if_splits)
qed

lemma Editor_apply_result:
  assumes "Editor_apply ops hdl sel st = Inr st'"
  shows "\<exists>s1. forEach_format hdl (getRanges sel) st
             = Inr (s1, snd st @ map Format (range_list sel))
          \<and> st' = (body_focus ops
                     (if execCommand_recordHistory hdl then recordSnapshot ops s1 else s1),
                   snd st @ map Format (range_list sel)
                     @ (if execCommand_recordHistory hdl then [RecordSnapshot] else [])
                     @ [BodyFocus])"
proof (cases "forEach_format hdl (getRanges sel) st")
  case (Inl e)
  with assms show ?thesis by (simp add: Editor_apply_def)
next
  case (Inr st1)
  have l: "snd st1 = snd st @ map Format (range_list sel)"
    using forEach_format_log [OF Inr] by (simp add: getRanges_eq)
  then have st1: "st1 = (fst st1, snd st @ map Format (range_list sel))"
    by (cases st1) simp
  have "st' = (body_focus ops
                 (if execCommand_recordHistory hdl then recordSnapshot ops (fst st1)
                  else fst st1),
               snd st @ map Format (range_list sel)
                 @ (if execCommand_recordHistory hdl then [RecordSnapshot] else [])
                 @ [BodyFocus])"
  proof (cases "execCommand_recordHistory hdl")
    case True
    have "Editor_apply ops hdl sel st
        = Inr (body_focus ops (recordSnapshot ops (fst st1)),
               snd st1 @ [RecordSnapshot] @ [BodyFocus])"
      by (simp add: Editor_apply_def Inr True)
    with assms l True show ?thesis by simp
  next
    case False
    have "Editor_apply ops hdl sel st = Inr (body_focus ops (fst st1), snd st1 @ [BodyFocus])"
      by (simp add: Editor_apply_def Inr False)
    with assms l False show ?thesis by simp
  qed
  with Inr st1 show ?thesis by metis
qed

text \<open>
  A command with no \<open>format\<close> stops \<open>apply\<close> at the first range; with no range there is
  no call to make.
\<close>

lemma forEach_format_TypeError:
  assumes "execCommand_format hdl = (\<lambda>tbRange delta editor. Inl TypeError)"
  shows "forEach_format hdl rs st = (if rs = [] then Inr st else Inl TypeError)"
  by (cases rs) (simp_all add: assms)

lemma Editor_apply_no_format:
  assumes "execCommand_format hdl = (\<lambda>tbRange delta editor. Inl TypeError)"
    and "execCommand_recordHistory hdl"
  shows "Editor_apply ops hdl sel st =
    (if rangeCount sel = 0
     then Inr (body_focus ops (recordSnapshot ops (fst st)),
               snd st @ [RecordSnapshot, BodyFocus])
     else Inl TypeError)"
  by (simp add: Editor_apply_def forEach_format_TypeError [OF assms(1)] getRanges_eq
      rangeCount_def assms(2))

text \<open>
  Claim C9, as stated, fails.  The table commander declares \<open>recordHistory = true\<close>, and
  \<open>apply\<close> of a handler whose command it is, over a selection of one range, throws a
  \<open>TypeError\<close> at the call of \<open>format\<close>: it never comes to \<open>recordSnapshot\<close>, and no
  snapshot is pushed.
\<close>

theorem Editor_apply_TableCommander_counterexample:
  "TableCommander.recordHistory new_TableCommander
   \<and> Editor_apply sample_frame_ops (TableCommander_handler sample_match new_TableCommander)
       \<lparr>range_list = [1], focusNode = None, focusOffset = 0, isCollapsed = False\<rparr>
       (0, [])
     = Inl TypeError"
  by (simp add: Editor_apply_def getRanges_eq TableCommander_handler_def
      new_TableCommander_def)

text \<open>
  Claim C9, amended.  When \<open>apply\<close> has run the handler's command over every selected
  range (no call of \<open>format\<close> threw), it has called \<open>format\<close> once for each range in
  order, then \<open>recordSnapshot\<close> on the edit frame exactly when the command's
  \<open>recordHistory\<close> is true, then the focus of the document body: the frame it leaves is
  the frame after the calls of \<open>format\<close>, with the snapshot recorded if and only if the
  flag is true.  It returns whenever no \<open>format\<close> throws.  The table and the list
  commander declare \<open>recordHistory = true\<close> and have no \<open>format\<close>: \<open>apply\<close> of a handler
  whose command is one of them records the snapshot when the selection has no range,
  and throws a \<open>TypeError\<close>, with no snapshot, when it has one.
\<close>

theorem Editor_apply_recordHistory:
  "(\<forall>st'. Editor_apply ops hdl sel st = Inr st' \<longrightarrow>
       (\<exists>s1. forEach_format hdl (getRanges sel) st
                = Inr (s1, snd st @ map Format (range_list sel))
          \<and> st' = (body_focus ops
                     (if execCommand_recordHistory hdl then recordSnapshot ops s1 else s1),
                   snd st @ map Format (range_list sel)
                     @ (if execCommand_recordHistory hdl then [RecordSnapshot] else [])
                     @ [BodyFocus]))
     \<and> (RecordSnapshot \<in> set (drop (length (snd st) + rangeCount sel) (snd st'))
          \<longleftrightarrow> execCommand_recordHistory hdl))
   \<and> ((\<forall>r d s. \<exists>s'. execCommand_format hdl r d s = Inr s') \<longrightarrow>
        (\<exists>st'. Editor_apply ops hdl sel st = Inr st'))
   \<and> TableCommander.recordHistory new_TableCommander
   \<and> ListCommander.recordHistory (new_ListCommander t)
   \<and> Editor_apply ops (TableCommander_handler m new_TableCommander) sel st =
       (if rangeCount sel = 0
        then Inr (body_focus ops (recordSnapshot ops (fst st)),
                  snd st @ [RecordSnapshot, BodyFocus])
        else Inl TypeError)
   \<and> Editor_apply ops (ListCommander_handler m (new_ListCommander t)) sel st =
       (if rangeCount sel = 0
        then Inr (body_focus ops (recordSnapshot ops (fst st)),
                  snd st @ [RecordSnapshot, BodyFocus])
        else Inl TypeError)"
proof -
  have a: "\<exists>s1. forEach_format hdl (getRanges sel) st
             = Inr (s1, snd st @ map Format (range_list sel))
          \<and> st' = (body_focus ops
                     (if execCommand_recordHistory hdl then recordSnapshot ops s1 else s1),
                   snd st @ map Format (range_list sel)
                     @ (if execCommand_recordHistory hdl then [RecordSnapshot] else [])
                     @ [BodyFocus])"
    if "Editor_apply ops hdl sel st = Inr st'" for st'
    using that by (rule Editor_apply_result)
  have a': "RecordSnapshot \<in> set (drop (length (snd st) + rangeCount sel) (snd st'))
          \<longleftrightarrow> execCommand_recordHistory hdl"
    if "Editor_apply ops hdl sel st = Inr st'" for st'
    using Editor_apply_log [OF that] by (simp add: rangeCount_def)
  have b: "\<exists>st'. Editor_apply ops hdl sel st = Inr st'"
    if h: "\<forall>r d s. \<exists>s'. execCommand_format hdl r d s = Inr s'"
  proof -
    obtain st1 where "forEach_format hdl (getRanges sel) st = Inr st1"
      using forEach_format_total [of hdl "getRanges sel" st] h by blast
    then show ?thesis by (simp add: Editor_apply_def Let_def)
  qed
  have c: "TableCommander.recordHistory new_TableCommander"
    by (simp add: new_TableCommander_def)
  have d: "ListCommander.recordHistory (new_ListCommander t)"
    by (simp add: new_ListCommander_def)
  have e: "Editor_apply ops (TableCommander_handler m new_TableCommander) sel st =
       (if rangeCount sel = 0
        then Inr (body_focus ops (recordSnapshot ops (fst st)),
                  snd st @ [RecordSnapshot, BodyFocus])
        else Inl TypeError)"
    by (rule Editor_apply_no_format) (simp_all add: TableCommander_handler_def c)
  have f: "Editor_apply ops (ListCommander_handler m (new_ListCommander t)) sel st =
       (if rangeCount sel = 0
        then Inr (body_focus ops (recordSnapshot ops (fst st)),
                  snd st @ [RecordSnapshot, BodyFocus])
        else Inl TypeError)"
    by (rule Editor_apply_no_format) (simp_all add: ListCommander_handler_def d)
  show ?thesis
    using a a' b c d e f by blast
qed

theorem Editor_apply_recordHistory_witness:
  "Editor_apply \<lparr>recordSnapshot = (\<lambda>s. s + 100), body_focus = (\<lambda>s. s)\<rparr>
      \<lparr>matcher_match = (\<lambda>_ r. \<lparr>inSingleContainer = True, overlap = False, contain = False,
                                 container = (), config = (), disable = False, range' = r\<rparr>),
       execCommand_format = (\<lambda>r _ s. Inr (s + r)),
       execCommand_recordHistory = True\<rparr>
      \<lparr>range_list = [1, 2 :: nat], focusNode = None, focusOffset = 0, isCollapsed = False\<rparr>
      (0, [])
    = Inr (103, [Format 1, Format 2, RecordSnapshot, BodyFocus])
   \<and> RecordSnapshot \<in> set (drop (length ([] :: nat call list) + 2)
                             [Format 1, Format 2, RecordSnapshot, BodyFocus])
   \<and> TableCommander.recordHistory new_TableCommander
   \<and> ListCommander.recordHistory (new_ListCommander ''ul'')
   \<and> Editor_apply \<lparr>recordSnapshot = (\<lambda>s. s + 100), body_focus = (\<lambda>s. s)\<rparr>
       (TableCommander_handler
          (\<lambda>_ r. \<lparr>inSingleContainer = True, overlap = False, contain = False,
                   container = (), config = (), disable = False, range' = r\<rparr>)
          new_TableCommander)
       \<lparr>range_list = [1, 2 :: nat], focusNode = None, focusOffset = 0, isCollapsed = False\<rparr>
       (0, [])
     = Inl TypeError
   \<and> Editor_apply \<lparr>recordSnapshot = (\<lambda>s. s + 100), body_focus = (\<lambda>s. s)\<rparr>
       (ListCommander_handler
          (\<lambda>_ r. \<lparr>inSingleContainer = True, overlap = False, contain = False,
                   container = (), config = (), disable = False, range' = r\<rparr>)
          (new_ListCommander ''ul''))
       \<lparr>range_list = [1, 2 :: nat], focusNode = None, focusOffset = 0, isCollapsed = False\<rparr>
       (0, [])
     = Inl TypeError"
  using Editor_apply_recordHistory
    [of "\<lparr>recordSnapshot = (\<lambda>s. s + 100), body_focus = (\<lambda>s. s)\<rparr>"
        "\<lparr>matcher_match = (\<lambda>_ r. \<lparr>inSingleContainer = True, overlap = False, contain = False,
                                 container = (), config = (), disable = False, range' = r\<rparr>),
          execCommand_format = (\<lambda>r _ s. Inr (s + r)),
          execCommand_recordHistory = True\<rparr>"
        "\<lparr>range_list = [1, 2 :: nat], focusNode = None, focusOffset = 0, isCollapsed = False\<rparr>"
        "(0, [])" "''ul''"
        "\<lambda>_ r. \<lparr>inSingleContainer = True, overlap = False, contain = False,
                container = (), config = (), disable = False, range' = r\<rparr>"]
  by (simp add: Editor_apply_def getRanges_eq rangeCount_def new_TableCommander_def
      new_ListCommander_def TableCommander_handler_def ListCommander_handler_def)

subsection \<open>Input: the position of the cursor\<close>

text \<open>
  Claim C4.  When the focus node of the selection is an element, the focus offset is
  \<open>k\<close> and the child of that element at index \<open>k\<close> is a text node, the range that
  \<open>updateCursorPosition\<close> creates starts at that text node, at offset 0; for a selection
  with a range, the rest of the method runs from this position.
\<close>

theorem startPosition_retargets_text:
  assumes "focusNode sel = Some f"
    and "nodeType (doc f) = ELEMENT_NODE"
    and "focusOffset sel = k"
    and "k < length (childNodes (doc f))"
    and "nodeType (doc (childNodes (doc f) ! k)) = TEXT_NODE"
  shows "startPosition doc sel = Inr (childNodes (doc f) ! k, 0)
    \<and> (rangeCount sel \<noteq> 0 \<and> selection this = Some sel \<longrightarrow>
         updateCursorPosition env doc this
           = placeCursor env doc (childNodes (doc f) ! k, 0) this)"
  using assms by (simp add: startPosition_def updateCursorPosition_def)

theorem startPosition_retargets_text_witness:
  "nodeType (sample_doc 2) = ELEMENT_NODE
   \<and> (0 :: nat) < length (childNodes (sample_doc 2))
   \<and> nodeType (sample_doc (childNodes (sample_doc 2) ! 0)) = TEXT_NODE
   \<and> startPosition sample_doc
        \<lparr>range_list = [()], focusNode = Some 2, focusOffset = 0, isCollapsed = True\<rparr>
       = Inr (3, 0)
   \<and> updateCursorPosition sample_platform sample_doc
        (new_Input\<lparr>selection :=
           Some \<lparr>range_list = [()], focusNode = Some 2, focusOffset = 0, isCollapsed = True\<rparr>\<rparr>)
       = placeCursor sample_platform sample_doc (3, 0)
           (new_Input\<lparr>selection :=
              Some \<lparr>range_list = [()], focusNode = Some 2, focusOffset = 0,
                     isCollapsed = True\<rparr>\<rparr>)"
proof -
  have h1: "focusNode \<lparr>range_list = [()], focusNode = Some 2, focusOffset = 0,
              isCollapsed = True\<rparr> = Some 2"
    by simp
  have h2: "nodeType (sample_doc 2) = ELEMENT_NODE"
    by (simp add: sample_doc_def ELEMENT_NODE_def)
  have h3: "focusOffset \<lparr>range_list = [()], focusNode = Some 2, focusOffset = 0,
              isCollapsed = True\<rparr> = 0"
    by simp
  have h4: "0 < length (childNodes (sample_doc 2))"
    by (simp add: sample_doc_def)
  have h5: "nodeType (sample_doc (childNodes (sample_doc 2) ! 0)) = TEXT_NODE"
    by (simp add: sample_doc_def TEXT_NODE_def)
  have c: "childNodes (sample_doc 2) ! 0 = 3"
    by (simp add: sample_doc_def)
  show ?thesis
    using h2 h4 h5
      startPosition_retargets_text [OF h1 h2 h3 h4 h5,
        of "new_Input\<lparr>selection :=
              Some \<lparr>range_list = [()], focusNode = Some 2, focusOffset = 0,
                     isCollapsed = True\<rparr>\<rparr>"
           sample_platform]
    by (simp add: c rangeCount_def)
qed

subsection \<open>Input: a selection with no range\<close>

lemma Input_hide_eq:
  "Input_hide this =
     this\<lparr>display' := False, cursor_visibility := ''hidden'',
          pending_timers := (case timer this of None \<Rightarrow> pending_timers this
                             | Some i \<Rightarrow> removeAll i (pending_timers this))\<rparr>"
  by (cases "timer this") (simp_all add: Input_hide_def set_display_def clearTimeout_def)

text \<open>
  Claim C8.  For a selection whose \<open>rangeCount\<close> is zero, \<open>updateStateBySelection\<close>
  returns with no error after it has stored the selection and hidden the cursor (the
  display flag is off, the cursor's visibility is \<open>hidden\<close>, the blink timer is
  cleared): the position of the overlay and the focus of the textarea are as before.
  \<open>updateCursorPosition\<close> with such a selection stored returns the state unchanged.
\<close>

theorem zero_ranges_no_op:
  assumes "rangeCount sel = 0"
  shows "updateStateBySelection env doc sel this =
      Inr (this\<lparr>selection := Some sel, display' := False, cursor_visibility := ''hidden'',
                pending_timers := (case timer this of None \<Rightarrow> pending_timers this
                                   | Some i \<Rightarrow> removeAll i (pending_timers this))\<rparr>)
    \<and> updateCursorPosition env doc (this\<lparr>selection := Some sel\<rparr>)
        = Inr (this\<lparr>selection := Some sel\<rparr>)"
  using assms
  by (cases "timer this")
    (simp_all add: updateStateBySelection_def updateCursorPosition_def Input_hide_eq Let_def)

theorem zero_ranges_no_op_witness:
  "rangeCount \<lparr>range_list = ([] :: unit list), focusNode = None, focusOffset = 0,
      isCollapsed = True\<rparr> = 0
   \<and> updateStateBySelection sample_platform sample_doc
        \<lparr>range_list = ([] :: unit list), focusNode = None, focusOffset = 0, isCollapsed = True\<rparr>
        (new_Input\<lparr>timer := Some 4, pending_timers := [4], elementRef_left := ''8px'',
           input_focused := False\<rparr>)
     = Inr (new_Input\<lparr>timer := Some 4, pending_timers := [], elementRef_left := ''8px'',
              input_focused := False, display' := False, cursor_visibility := ''hidden'',
              selection := Some \<lparr>range_list = [], focusNode = None, focusOffset = 0,
                                  isCollapsed = True\<rparr>\<rparr>)"
  using zero_ranges_no_op
    [of "\<lparr>range_list = ([] :: unit list), focusNode = None, focusOffset = 0,
           isCollapsed = True\<rparr>"
        sample_platform sample_doc
        "new_Input\<lparr>timer := Some 4, pending_timers := [4], elementRef_left := ''8px'',
           input_focused := False\<rparr>"]
  by (simp add: rangeCount_def new_Input_def)

subsection \<open>Input: the height of the cursor box\<close>

text \<open>
  The height that the case analysis gives is not the height of the box: with the
  computed style \<open>font-size: 16px; line-height: normal\<close> the analysis falls back to the
  font size, 16, and over a range rectangle of height 18 the box is 18 pixels high.
\<close>

theorem boxHeight_not_cases_counterexample:
  "cursorHeight sample_platform ''16px'' ''normal'' = Num 16
   \<and> boxHeight sample_platform ''16px'' ''normal''
        \<lparr>rect_left = Num 8, rect_top = Num 30, rect_height = Num 18\<rparr> = Num 18
   \<and> boxHeight sample_platform ''16px'' ''normal''
        \<lparr>rect_left = Num 8, rect_top = Num 30, rect_height = Num 18\<rparr>
       \<noteq> cursorHeight sample_platform ''16px'' ''normal''
   \<and> elementRef_height
        (projr (placeCursor sample_platform sample_doc (3, 0) (new_Input :: unit Input)))
       = ''18px''"
  by code_simp

text \<open>
  Claim C7, amended.  The local \<open>height\<close> follows the case analysis: the product of the
  parsed font size and the parsed line height when the line-height string coerces to a
  number, else the parsed line height when that is a number, else the parsed font size.
  The height of the cursor box is \<open>Math.max\<close> of this height and the height of the
  range's rectangle, and this is what \<open>updateCursorPosition\<close> writes to the overlay and
  to the line height of the textarea.
\<close>

theorem cursorHeight_cases:
  "cursorHeight env fs lh =
     (if \<not> isNaN env (to_number env lh) then mul env (parseFloat env fs) (parseFloat env lh)
      else if \<not> isNaN env (parseFloat env lh) then parseFloat env lh
      else parseFloat env fs)
   \<and> boxHeight env fs lh rect = math_max env (cursorHeight env fs lh) (rect_height rect)
   \<and> (\<forall>this'. placeCursor env doc start this = Inr this' \<longrightarrow>
         (\<exists>el. styleElement doc (fst start) = Inr el
            \<and> elementRef_height this'
                = px env (boxHeight env (fontSize (getComputedStyle env el))
                            (lineHeight (getComputedStyle env el)) (getRangePosition env start))
            \<and> input_lineHeight this' = elementRef_height this'))"
  by (cases "styleElement doc (fst start)")
    (auto simp: cursorHeight_def boxHeight_def placeCursor_def Let_def)

theorem cursorHeight_cases_witness:
  "placeCursor sample_platform sample_doc (3, 0) (new_Input :: unit Input)
     = Inr (new_Input\<lparr>elementRef_left := ''8px'', elementRef_top := ''30px'',
              elementRef_height := ''18px'', cursor_backgroundColor := ''rgb(0, 0, 0)'',
              input_lineHeight := ''18px'', input_fontSize := ''16px''\<rparr>)
   \<and> cursorHeight sample_platform ''16px'' ''2'' = Num 32
   \<and> cursorHeight sample_platform ''16px'' ''20px'' = Num 20
   \<and> cursorHeight sample_platform ''16px'' ''normal'' = Num 16
   \<and> styleElement sample_doc 3 = Inr 2
   \<and> px sample_platform
        (boxHeight sample_platform (fontSize (getComputedStyle sample_platform 2))
           (lineHeight (getComputedStyle sample_platform 2))
           (getRangePosition sample_platform (3, 0))) = ''18px''"
proof -
  have e: "placeCursor sample_platform sample_doc (3, 0) (new_Input :: unit Input)
     = Inr (new_Input\<lparr>elementRef_left := ''8px'', elementRef_top := ''30px'',
              elementRef_height := ''18px'', cursor_backgroundColor := ''rgb(0, 0, 0)'',
              input_lineHeight := ''18px'', input_fontSize := ''16px''\<rparr>)"
    by code_simp
  have c: "cursorHeight sample_platform ''16px'' ''2'' = Num 32"
    "cursorHeight sample_platform ''16px'' ''20px'' = Num 20"
    "cursorHeight sample_platform ''16px'' ''normal'' = Num 16"
    by code_simp+
  have s: "styleElement sample_doc 3 = Inr 2"
    by code_simp
  have p: "px sample_platform
        (boxHeight sample_platform (fontSize (getComputedStyle sample_platform 2))
           (lineHeight (getComputedStyle sample_platform 2))
           (getRangePosition sample_platform (3, 0))) = ''18px''"
    using cursorHeight_cases
      [of sample_platform "''16px''" "''normal''"
          "\<lparr>rect_left = Num 8, rect_top = Num 30, rect_height = Num 18\<rparr>"
          sample_doc "(3, 0)" "new_Input :: unit Input"]
    by (simp add: e s)
  show ?thesis
    using e c s p by simp
qed

subsection \<open>Single: rendering\<close>

lemma appendChild_Inr:
  assumes "appendChild p c d = Inr d'"
  shows "c \<noteq> p"
    and "childNodes (nodes d' p) =
           (if parentNode (nodes d c) = Some p then removeAll c (childNodes (nodes d p))
            else childNodes (nodes d p)) @ [c]"
    and "parentNode (nodes d' c) = Some p"
    and "fresh d' = fresh d"
proof -
  have n: "\<not> inclusive_ancestor (fresh d) (nodes d) c p"
    using assms by (auto simp: appendChild_def split: if_splits)
  show cp: "c \<noteq> p"
    using n by (cases "fresh d") auto
  have d': "d' = d\<lparr>nodes :=
      ((detach c (nodes d))(p := (detach c (nodes d) p)
          \<lparr>childNodes := childNodes (detach c (nodes d) p) @ [c]\<rparr>))
        (c := (((detach c (nodes d))(p := (detach c (nodes d) p)
          \<lparr>childNodes := childNodes (detach c (nodes d) p) @ [c]\<rparr>)) c)
            \<lparr>parentNode := Some p\<rparr>)\<rparr>"
    using assms n by (simp add: appendChild_def Let_def)
  show "childNodes (nodes d' p) =
           (if parentNode (nodes d c) = Some p then removeAll c (childNodes (nodes d p))
            else childNodes (nodes d p)) @ [c]"
    using cp by (auto simp: d' detach_def split: option.splits)
  show "parentNode (nodes d' c) = Some p"
    by (simp add: d')
  show "fresh d' = fresh d"
    by (simp add: d')
qed

lemma appendChild_other:
  assumes "appendChild p c d = Inr d'" and "r \<noteq> p" and "r \<noteq> c"
    and "parentNode (nodes d c) \<noteq> Some r"
  shows "nodes d' r = nodes d r"
proof -
  have n: "\<not> inclusive_ancestor (fresh d) (nodes d) c p"
    using assms(1) by (auto simp: appendChild_def split: if_splits)
  show ?thesis
    using assms n by (auto simp: appendChild_def Let_def detach_def split: option.splits)
qed

lemma appendChild_parentNode:
  assumes "appendChild p c d = Inr d'"
  shows "parentNode (nodes d' r) = (if r = c then Some p else parentNode (nodes d r))"
proof -
  have n: "\<not> inclusive_ancestor (fresh d) (nodes d) c p"
    using assms(1) by (auto simp: appendChild_def split: if_splits)
  show ?thesis
    using assms n by (auto simp: appendChild_def Let_def detach_def split: option.splits)
qed

lemma set_VIRTUAL_NODE_simps:
  "childNodes (nodes (set_VIRTUAL_NODE e v d) r) = childNodes (nodes d r)"
  "parentNode (nodes (set_VIRTUAL_NODE e v d) r) = parentNode (nodes d r)"
  "fresh (set_VIRTUAL_NODE e v d) = fresh d"
  "VIRTUAL_NODE (nodes (set_VIRTUAL_NODE e v d) e) = Some v"
  by (simp_all add: set_VIRTUAL_NODE_def)

lemma apart_set_VIRTUAL_NODE: "apart host d \<Longrightarrow> apart host (set_VIRTUAL_NODE e v d)"
  by (simp add: apart_def set_VIRTUAL_NODE_simps)

lemma apart_appendChild:
  assumes "apart host d" and "appendChild p c d = Inr d'" and "p \<noteq> host" and "c \<noteq> host"
  shows "apart host d'"
proof -
  have "parentNode (nodes d c) \<noteq> Some host"
    using assms(1) by (simp add: apart_def)
  then have "nodes d' host = nodes d host"
    using assms by (simp add: appendChild_other)
  then show ?thesis
    using assms by (simp add: apart_def appendChild_parentNode appendChild_Inr(4))
qed

text \<open>The callback of the code computes the step of the specification.\<close>

lemma render_callback_fold_step:
  "on_dom (render_callback env v (node, st) next) = fold_step env v (node, the_dom st) next"
  by (auto simp: on_dom_def render_callback_def fold_step_def
      split: option.splits sum.splits RenderModel.splits prod.splits)

lemma reduce_from_fold_step:
  "on_dom (reduce_from (render_callback env v) (node, st) xs)
     = reduce_from (fold_step env v) (node, the_dom st) xs"
proof (induction xs arbitrary: node st)
  case Nil
  show ?case by (simp add: on_dom_def)
next
  case (Cons x xs)
  show ?case
  proof (cases "render_callback env v (node, st) x")
    case (Inl e)
    have "fold_step env v (node, the_dom st) x = Inl e"
      using render_callback_fold_step [of env v node st x] Inl by (simp add: on_dom_def)
    then show ?thesis
      using Inl by (simp add: on_dom_def)
  next
    case (Inr a)
    obtain n' st' where a: "a = (n', st')" by (cases a)
    have "fold_step env v (node, the_dom st) x = Inr (n', the_dom st')"
      using render_callback_fold_step [of env v node st x] Inr a by (simp add: on_dom_def)
    then show ?thesis
      using Cons.IH [of n' st'] Inr a by simp
  qed
qed

lemma fold_step_apart:
  assumes "keeps_apart env host" and "apart host d" and "node \<noteq> None" and "node \<noteq> Some host"
    and "fold_step env v (node, d) next = Inr (node', d')"
  shows "apart host d' \<and> node' \<noteq> None \<and> node' \<noteq> Some host"
proof (cases "handler next")
  case None
  with assms show ?thesis by (simp add: fold_step_def)
next
  case (Some h)
  obtain n where n: "node = Some n" using assms(3) by (cases node) auto
  show ?thesis
  proof (cases "execCommand_render env h (state next) node (cacheData next) d")
    case (Inl e)
    with assms Some show ?thesis by (simp add: fold_step_def)
  next
    case (Inr md)
    obtain m d1 where md: "md = (m, d1)" by (cases md)
    have k: "apart host d1" "m \<noteq> Some (ReplaceModel host)" "m \<noteq> Some (ChildSlotModel host)"
      using assms(1,2,4) Inr md unfolding keeps_apart_def by blast+
    show ?thesis
    proof (cases m)
      case None
      with assms Some Inr md k show ?thesis by (simp add: fold_step_def)
    next
      case (Some rm)
      note m = this
      show ?thesis
      proof (cases rm)
        case (ReplaceModel e)
        with assms \<open>handler next = Some h\<close> Inr md k m show ?thesis
          by (auto simp: fold_step_def apart_set_VIRTUAL_NODE)
      next
        case (ChildSlotModel e)
        have e: "e \<noteq> host" using k(3) m ChildSlotModel by simp
        show ?thesis
        proof (cases "appendChild n e d1")
          case (Inl err)
          with assms \<open>handler next = Some h\<close> Inr md m ChildSlotModel n show ?thesis
            by (simp add: fold_step_def)
        next
          case (Inr d2)
          have "apart host d2"
            using apart_appendChild [OF k(1) Inr] assms(4) n e by simp
          with assms \<open>handler next = Some h\<close>
            \<open>execCommand_render env h (state next) node (cacheData next) d = Inr md\<close>
            md m ChildSlotModel n Inr e
          show ?thesis
            by (auto simp: fold_step_def apart_set_VIRTUAL_NODE)
        qed
      qed
    qed
  qed
qed

lemma reduce_from_apart:
  assumes "keeps_apart env host"
  shows "apart host d \<Longrightarrow> node \<noteq> None \<Longrightarrow> node \<noteq> Some host \<Longrightarrow>
         reduce_from (fold_step env v) (node, d) xs = Inr (node', d') \<Longrightarrow>
         apart host d' \<and> node' \<noteq> None \<and> node' \<noteq> Some host"
proof (induction xs arbitrary: node d)
  case Nil
  then show ?case by simp
next
  case (Cons x xs)
  show ?case
  proof (cases "fold_step env v (node, d) x")
    case (Inl e)
    with Cons.prems show ?thesis by simp
  next
    case (Inr a)
    obtain n1 d1 where a: "a = (n1, d1)" by (cases a)
    have s: "apart host d1 \<and> n1 \<noteq> None \<and> n1 \<noteq> Some host"
      using fold_step_apart [OF assms Cons.prems(1,2,3)] Inr a by simp
    have "reduce_from (fold_step env v) (n1, d1) xs = Inr (node', d')"
      using Cons.prems(4) Inr a by simp
    then show ?thesis
      using Cons.IH [of d1 n1] s by simp
  qed
qed

lemma render_start_eq:
  "render_start env this d =
     (fresh d, Suc (fresh d),
      set_VIRTUAL_NODE (Suc (fresh d)) (render_vNode env this)
        (snd (createElement (Single.tagName this) (snd (createDocumentFragment d)))))"
  by (simp add: render_start_def createDocumentFragment_def createElement_def)

lemma render_start_apart:
  assumes "\<forall>r. parentNode (nodes d r) \<noteq> Some (fresh d)"
  shows "apart (fresh d) (snd (snd (render_start env this d)))"
  using assms
  by (simp add: render_start_eq apart_def set_VIRTUAL_NODE_simps createElement_def
      createDocumentFragment_def)

lemma render_start_bare:
  "nodes (snd (snd (render_start env this d))) (Suc (fresh d)) =
     \<lparr>nodeType = ELEMENT_NODE, childNodes = [], parentNode = None,
      tag_name = Single.tagName this, VIRTUAL_NODE = Some (render_vNode env this)\<rparr>"
  by (simp add: render_start_eq set_VIRTUAL_NODE_def createElement_def
      createDocumentFragment_def)

lemma fold_step_cases:
  "handler next = None \<Longrightarrow> fold_step env v (acc, d) next = Inr (acc, d)"
  "handler next = Some h \<Longrightarrow>
   execCommand_render env h (state next) acc (cacheData next) d = Inr (None, d1) \<Longrightarrow>
   fold_step env v (acc, d) next = Inr (acc, d1)"
  "handler next = Some h \<Longrightarrow>
   execCommand_render env h (state next) acc (cacheData next) d
     = Inr (Some (ReplaceModel e), d1) \<Longrightarrow>
   fold_step env v (acc, d) next = Inr (Some e, set_VIRTUAL_NODE e v d1)"
  "handler next = Some h \<Longrightarrow>
   execCommand_render env h (state next) None (cacheData next) d
     = Inr (Some (ChildSlotModel e), d1) \<Longrightarrow>
   fold_step env v (None, d) next = Inr (Some e, set_VIRTUAL_NODE e v d1)"
  "handler next = Some h \<Longrightarrow>
   execCommand_render env h (state next) (Some n) (cacheData next) d
     = Inr (Some (ChildSlotModel e), d1) \<Longrightarrow>
   appendChild n e d1 = Inr d2 \<Longrightarrow>
   fold_step env v (Some n, d) next = Inr (Some e, set_VIRTUAL_NODE e v d2)"
  by (simp_all add: fold_step_def)

lemma slot_is_last_child:
  assumes "appendChild n e d1 = Inr d2"
  shows "childNodes (nodes (set_VIRTUAL_NODE e v d2) n) \<noteq> []
    \<and> last (childNodes (nodes (set_VIRTUAL_NODE e v d2) n)) = e
    \<and> parentNode (nodes (set_VIRTUAL_NODE e v d2) e) = Some n"
  using appendChild_Inr(2,3) [OF assms] by (simp add: set_VIRTUAL_NODE_simps)

lemma Single_render_eq:
  "Single_render env this d =
     (case reduce_from (fold_step env (render_vNode env this))
             (Some (Suc (fresh d)), snd (snd (render_start env this d)))
             (getCanApplyFormats env (formatMatrix this)) of
        Inl e \<Rightarrow> Inl e
      | Inr (node, dn) \<Rightarrow>
          (case node of
             Some n \<Rightarrow>
               (case appendChild (fresh d) n dn of
                  Inl e \<Rightarrow> Inl e
                | Inr d4 \<Rightarrow> Inr (fresh d, d4))
           | None \<Rightarrow> Inr (fresh d, dn)))"
proof -
  let ?d3 = "snd (snd (render_start env this d))"
  let ?st = "\<lparr>container = None, slotContainer = None, the_dom = ?d3\<rparr>"
  let ?r = "reduce_from (render_callback env (render_vNode env this)) (Some (Suc (fresh d)), ?st)
              (getCanApplyFormats env (formatMatrix this))"
  have s: "fst (render_start env this d) = fresh d"
    "fst (snd (render_start env this d)) = Suc (fresh d)"
    by (simp_all add: render_start_eq)
  have o: "on_dom ?r =
      reduce_from (fold_step env (render_vNode env this)) (Some (Suc (fresh d)), ?d3)
        (getCanApplyFormats env (formatMatrix this))"
    using reduce_from_fold_step [of env "render_vNode env this" "Some (Suc (fresh d))" ?st]
    by simp
  have "Single_render env this d =
      (case ?r of Inl e \<Rightarrow> Inl e
       | Inr (node, st) \<Rightarrow>
          (case node of
             Some n \<Rightarrow>
               (case appendChild (fresh d) n (the_dom st) of
                  Inl e \<Rightarrow> Inl e
                | Inr d4 \<Rightarrow> Inr (fresh d, d4))
           | None \<Rightarrow> Inr (fresh d, the_dom st)))"
    by (auto simp: Single_render_def split_def Let_def s split: sum.splits option.splits)
  also have "\<dots> =
      (case on_dom ?r of Inl e \<Rightarrow> Inl e
       | Inr (node, dn) \<Rightarrow>
          (case node of
             Some n \<Rightarrow>
               (case appendChild (fresh d) n dn of
                  Inl e \<Rightarrow> Inl e
                | Inr d4 \<Rightarrow> Inr (fresh d, d4))
           | None \<Rightarrow> Inr (fresh d, dn)))"
    by (cases ?r) (auto simp: on_dom_def)
  finally show ?thesis
    unfolding o .
qed

text \<open>
  Claim C3.  \<open>Single.render\<close> is a fold over the formats that can be applied, from a bare
  element of the node's tag name that carries the virtual node.  In a step, a replace
  model makes the replacement element the accumulated node, whatever it was; a child slot
  is appended as the last child of the accumulated node, or is the root when there is
  none, and becomes the accumulated node; each such element is given the same virtual
  node; any other result, and a format with no handler, leaves the accumulated node.
  The code's callback, with its two locals, computes this step.  When the call returns,
  the fold has ended with an accumulated node, which is the only child of the returned
  host fragment.  (The commands cannot reach the host, a local of \<open>render\<close>.)
\<close>

theorem Single_render_fold:
  assumes "keeps_apart env (fresh d)"
    and "\<forall>r. parentNode (nodes d r) \<noteq> Some (fresh d)"
    and "Single_render env this d = Inr (host, d')"
  shows "host = fresh d
    \<and> nodes (snd (snd (render_start env this d))) (Suc (fresh d)) =
        \<lparr>nodeType = ELEMENT_NODE, childNodes = [], parentNode = None,
         tag_name = Single.tagName this, VIRTUAL_NODE = Some (render_vNode env this)\<rparr>
    \<and> (\<exists>node dn.
          reduce_from (fold_step env (render_vNode env this))
             (Some (Suc (fresh d)), snd (snd (render_start env this d)))
             (getCanApplyFormats env (formatMatrix this)) = Inr (Some node, dn)
          \<and> appendChild host node dn = Inr d'
          \<and> childNodes (nodes d' host) = [node]
          \<and> parentNode (nodes d' node) = Some host)
    \<and> (\<forall>v node st next.
          on_dom (render_callback env v (node, st) next)
            = fold_step env v (node, the_dom st) next)
    \<and> (\<forall>v acc dd next. handler next = None \<longrightarrow>
          fold_step env v (acc, dd) next = Inr (acc, dd))
    \<and> (\<forall>v acc dd next h d1. handler next = Some h
          \<and> execCommand_render env h (state next) acc (cacheData next) dd = Inr (None, d1)
          \<longrightarrow> fold_step env v (acc, dd) next = Inr (acc, d1))
    \<and> (\<forall>v acc dd next h e d1. handler next = Some h
          \<and> execCommand_render env h (state next) acc (cacheData next) dd
              = Inr (Some (ReplaceModel e), d1)
          \<longrightarrow> fold_step env v (acc, dd) next = Inr (Some e, set_VIRTUAL_NODE e v d1)
            \<and> VIRTUAL_NODE (nodes (set_VIRTUAL_NODE e v d1) e) = Some v)
    \<and> (\<forall>v dd next h e d1. handler next = Some h
          \<and> execCommand_render env h (state next) None (cacheData next) dd
              = Inr (Some (ChildSlotModel e), d1)
          \<longrightarrow> fold_step env v (None, dd) next = Inr (Some e, set_VIRTUAL_NODE e v d1)
            \<and> VIRTUAL_NODE (nodes (set_VIRTUAL_NODE e v d1) e) = Some v)
    \<and> (\<forall>v n dd next h e d1 d2. handler next = Some h
          \<and> execCommand_render env h (state next) (Some n) (cacheData next) dd
              = Inr (Some (ChildSlotModel e), d1)
          \<and> appendChild n e d1 = Inr d2
          \<longrightarrow> fold_step env v (Some n, dd) next = Inr (Some e, set_VIRTUAL_NODE e v d2)
            \<and> last (childNodes (nodes (set_VIRTUAL_NODE e v d2) n)) = e
            \<and> parentNode (nodes (set_VIRTUAL_NODE e v d2) e) = Some n
            \<and> VIRTUAL_NODE (nodes (set_VIRTUAL_NODE e v d2) e) = Some v)"
proof -
  let ?d3 = "snd (snd (render_start env this d))"
  let ?v = "render_vNode env this"
  let ?fold = "reduce_from (fold_step env ?v) (Some (Suc (fresh d)), ?d3)
             (getCanApplyFormats env (formatMatrix this))"
  have ap: "apart (fresh d) ?d3"
    using assms(2) by (rule render_start_apart)
  obtain node dn where f: "?fold = Inr (node, dn)"
    using assms(3) unfolding Single_render_eq by (cases ?fold) auto
  have inv: "apart (fresh d) dn \<and> node \<noteq> None \<and> node \<noteq> Some (fresh d)"
    using reduce_from_apart [OF assms(1) ap _ _ f] by simp
  then obtain n where n: "node = Some n" by (cases node) auto
  have fin: "host = fresh d" "appendChild (fresh d) n dn = Inr d'"
    using assms(3) unfolding Single_render_eq f n
    by (auto split: sum.splits)
  have ch: "childNodes (nodes d' (fresh d)) = [n]"
    using appendChild_Inr(2) [OF fin(2)] inv by (simp add: apart_def)
  have pa: "parentNode (nodes d' n) = Some (fresh d)"
    using appendChild_Inr(3) [OF fin(2)] .
  have main: "\<exists>node dn. ?fold = Inr (Some node, dn) \<and> appendChild host node dn = Inr d'
          \<and> childNodes (nodes d' host) = [node] \<and> parentNode (nodes d' node) = Some host"
    using f n fin ch pa by auto
  show ?thesis
    using fin(1) render_start_bare [of env this d] main
    by (auto simp: render_callback_fold_step fold_step_cases set_VIRTUAL_NODE_simps
        dest: slot_is_last_child)
qed

theorem Single_render_fold_witness:
  "keeps_apart sample_render_env (fresh (empty_dom :: (unit, nat, unit) VMediaNode dom))
   \<and> (\<forall>r. parentNode (nodes (empty_dom :: (unit, nat, unit) VMediaNode dom) r)
           \<noteq> Some (fresh (empty_dom :: (unit, nat, unit) VMediaNode dom)))
   \<and> (\<exists>d'. Single_render sample_render_env sample_single empty_dom = Inr (0, d')
         \<and> childNodes (nodes d' 0) = [4]
         \<and> parentNode (nodes d' 4) = Some 0
         \<and> childNodes (nodes d' 1) = [2]
         \<and> childNodes (nodes d' 3) = []
         \<and> VIRTUAL_NODE (nodes d' 4) = Some (render_vNode sample_render_env sample_single))"
proof -
  let ?d = "empty_dom :: (unit, nat, unit) VMediaNode dom"
  have k: "keeps_apart sample_render_env (fresh ?d)"
    unfolding keeps_apart_def
    by (auto simp: sample_render_env_def apart_def createElement_def empty_dom_def)
  have u: "\<forall>r. parentNode (nodes ?d r) \<noteq> Some (fresh ?d)"
    by (simp add: empty_dom_def)
  have "\<exists>d'. Single_render sample_render_env sample_single ?d = Inr (0, d')
     \<and> childNodes (nodes d' 1) = [2] \<and> childNodes (nodes d' 3) = []
     \<and> last (childNodes (nodes d' 0)) = 4
     \<and> VIRTUAL_NODE (nodes d' 4) = Some (render_vNode sample_render_env sample_single)"
    by (simp add: Single_render_def render_start_def createDocumentFragment_def
        createElement_def sample_render_env_def sample_single_def empty_dom_def
        render_callback_def sample_format_def appendChild_def detach_def
        set_VIRTUAL_NODE_def Let_def render_vNode_def eval_nat_numeral)
  then obtain d' where run: "Single_render sample_render_env sample_single ?d = Inr (0, d')"
    and obs: "childNodes (nodes d' 1) = [2]" "childNodes (nodes d' 3) = []"
      "last (childNodes (nodes d' 0)) = 4"
      "VIRTUAL_NODE (nodes d' 4) = Some (render_vNode sample_render_env sample_single)"
    by blast
  obtain node where "childNodes (nodes d' 0) = [node]" "parentNode (nodes d' node) = Some 0"
    using Single_render_fold [OF k u run, THEN conjunct2, THEN conjunct2, THEN conjunct1]
    by blast
  then have "childNodes (nodes d' 0) = [4]" "parentNode (nodes d' 4) = Some 0"
    using obs(3) by auto
  then show ?thesis
    using k u run obs by blast
qed

subsection \<open>Single: cloning\<close>

lemma those_map_Some:
  "those (map g xs) = Some ys \<longleftrightarrow> list_all2 (\<lambda>x y. g x = Some y) xs ys"
proof (induction xs arbitrary: ys)
  case Nil
  show ?case by auto
next
  case (Cons x xs)
  show ?case
    by (cases "g x"; cases ys) (auto simp: Cons.IH split: option.splits)
qed

lemma entries_set_fresh:
  "k \<notin> fst ` set m \<Longrightarrow> entries_set k v m = m @ [(k, v)]"
  by (induction m) auto

lemma alloc_eq:
  "alloc ob h =
     (next_ref h, h\<lparr>cells := (cells h)(next_ref h \<mapsto> ob), next_ref := Suc (next_ref h)\<rparr>)"
  by (simp add: alloc_def)

text \<open>A value depends only on the cells that the object reaches.\<close>

lemma range_frame:
  assumes "\<forall>r\<in>set (range_refs h f). cells h' r = cells h r"
  shows "range_value h' f = range_value h f" and "range_refs h' f = range_refs h f"
  using assms
  by (auto simp: range_value_def range_refs_def split: option.splits obj.splits)

lemma array_frame:
  assumes "\<forall>r\<in>set (array_refs h a). cells h' r = cells h r"
  shows "array_value h' a = array_value h a" and "array_refs h' a = array_refs h a"
proof -
  have a: "cells h' a = cells h a"
    using assms by (simp add: array_refs_def)
  have f: "range_value h' f = range_value h f \<and> range_refs h' f = range_refs h f"
    if "cells h a = Some (ArrayObj fs)" and "f \<in> set fs" for fs f
  proof -
    have "\<forall>r\<in>set (range_refs h f). cells h' r = cells h r"
      using assms that by (auto simp: array_refs_def)
    then show ?thesis
      using range_frame [of h f h'] by simp
  qed
  show "array_value h' a = array_value h a"
  proof (cases "cells h a")
    case None
    with a show ?thesis by (simp add: array_value_def)
  next
    case (Some ob)
    show ?thesis
    proof (cases ob)
      case (ArrayObj fs)
      have eq: "map (range_value h') fs = map (range_value h) fs"
        using f Some ArrayObj by simp
      show ?thesis
        using a Some ArrayObj by (simp add: array_value_def eq)
    qed (use a Some in \<open>simp_all add: array_value_def\<close>)
  qed
  show "array_refs h' a = array_refs h a"
  proof (cases "cells h a")
    case None
    with a show ?thesis by (simp add: array_refs_def)
  next
    case (Some ob)
    show ?thesis
    proof (cases ob)
      case (ArrayObj fs)
      have eq: "map (range_refs h') fs = map (range_refs h) fs"
        using f Some ArrayObj by simp
      show ?thesis
        using a Some ArrayObj by (simp add: array_refs_def eq)
    qed (use a Some in \<open>simp_all add: array_refs_def\<close>)
  qed
qed

lemma matrix_frame:
  assumes "\<forall>r\<in>set (matrix_refs h m). cells h' r = cells h r"
  shows "matrix_value h' m = matrix_value h m" and "matrix_refs h' m = matrix_refs h m"
proof -
  have m: "cells h' m = cells h m"
    using assms by (simp add: matrix_refs_def)
  have e: "array_value h' (snd kv) = array_value h (snd kv)
           \<and> array_refs h' (snd kv) = array_refs h (snd kv)"
    if "cells h m = Some (MapObj kvs)" and "kv \<in> set kvs" for kvs kv
  proof -
    have "\<forall>r\<in>set (array_refs h (snd kv)). cells h' r = cells h r"
      using assms that by (auto simp: matrix_refs_def)
    then show ?thesis
      using array_frame [of h "snd kv" h'] by simp
  qed
  show "matrix_value h' m = matrix_value h m"
  proof (cases "cells h m")
    case None
    with m show ?thesis by (simp add: matrix_value_def)
  next
    case (Some ob)
    show ?thesis
    proof (cases ob)
      case (MapObj kvs)
      have eq: "map (entry_value h') kvs = map (entry_value h) kvs"
        using e Some MapObj by (simp add: entry_value_def)
      show ?thesis
        using m Some MapObj by (simp add: matrix_value_def eq)
    qed (use m Some in \<open>simp_all add: matrix_value_def\<close>)
  qed
  show "matrix_refs h' m = matrix_refs h m"
  proof (cases "cells h m")
    case None
    with m show ?thesis by (simp add: matrix_refs_def)
  next
    case (Some ob)
    show ?thesis
    proof (cases ob)
      case (MapObj kvs)
      have eq: "map (\<lambda>kv. array_refs h' (snd kv)) kvs
                  = map (\<lambda>kv. array_refs h (snd kv)) kvs"
        using e Some MapObj by simp
      show ?thesis
        using m Some MapObj by (simp add: matrix_refs_def eq)
    qed (use m Some in \<open>simp_all add: matrix_refs_def\<close>)
  qed
qed

lemma single_frame:
  assumes "\<forall>r\<in>set (single_refs h s). cells h' r = cells h r"
  shows "single_value h' s = single_value h s"
proof -
  have s: "cells h' s = cells h s"
    using assms by (simp add: single_refs_def)
  show ?thesis
  proof (cases "cells h s")
    case None
    with s show ?thesis by (simp add: single_value_def)
  next
    case (Some ob)
    show ?thesis
    proof (cases ob)
      case (SingleObj x)
      have "\<forall>r\<in>set (matrix_refs h (formatMatrix x)). cells h' r = cells h r"
        using assms Some SingleObj by (simp add: single_refs_def)
      then have "matrix_value h' (formatMatrix x) = matrix_value h (formatMatrix x)"
        by (rule matrix_frame)
      then show ?thesis
        using s Some SingleObj by (simp add: single_value_def)
    qed (use s Some in \<open>simp_all add: single_value_def\<close>)
  qed
qed

text \<open>Cloning one format range, and the ranges of an array.\<close>

lemma FormatRange_clone_ok:
  assumes "range_value h f = Some rv"
  shows "\<exists>f' h'. FormatRange_clone h f = Inr (f', h')
    \<and> (\<forall>r. r < next_ref h \<longrightarrow> cells h' r = cells h r)
    \<and> next_ref h \<le> next_ref h'
    \<and> range_value h' f' = Some rv
    \<and> (\<forall>r\<in>set (range_refs h' f'). next_ref h \<le> r \<and> r < next_ref h')"
proof -
  obtain s e k st a c v where
    f: "cells h f = Some (RangeObj s e k st a c)" and a: "cells h a = Some (DataObj v)"
    and rv: "rv = \<lparr>startIndex = s, endIndex = e, handler = k, state = st,
                   abstractData = v, cacheData = c\<rparr>"
    using assms by (auto simp: range_value_def split: option.splits obj.splits)
  show ?thesis
    using f a rv
    by (auto simp: FormatRange_clone_def alloc_eq range_value_def range_refs_def)
qed

lemma map_clone_ok:
  assumes "list_all2 (\<lambda>f rv. range_value h f = Some rv) fs rvs"
    and "\<forall>f\<in>set fs. \<forall>r\<in>set (range_refs h f). r < next_ref h"
  shows "\<exists>fs' h'. map_clone h fs = Inr (fs', h')
    \<and> (\<forall>r. r < next_ref h \<longrightarrow> cells h' r = cells h r)
    \<and> next_ref h \<le> next_ref h'
    \<and> list_all2 (\<lambda>f rv. range_value h' f = Some rv) fs' rvs
    \<and> (\<forall>f'\<in>set fs'. \<forall>r\<in>set (range_refs h' f'). next_ref h \<le> r \<and> r < next_ref h')"
  using assms
proof (induction fs arbitrary: h rvs)
  case Nil
  then show ?case by simp
next
  case (Cons f fs)
  obtain rv rvs' where rvs: "rvs = rv # rvs'" and rv: "range_value h f = Some rv"
    and rest: "list_all2 (\<lambda>f rv. range_value h f = Some rv) fs rvs'"
    using Cons.prems(1) by (auto simp: list_all2_Cons1)
  obtain f' h1 where c1: "FormatRange_clone h f = Inr (f', h1)"
    and fr1: "\<forall>r. r < next_ref h \<longrightarrow> cells h1 r = cells h r"
    and n1: "next_ref h \<le> next_ref h1"
    and v1: "range_value h1 f' = Some rv"
    and r1: "\<forall>r\<in>set (range_refs h1 f'). next_ref h \<le> r \<and> r < next_ref h1"
    using FormatRange_clone_ok [OF rv] by blast
  have keep: "range_value h1 g = range_value h g \<and> range_refs h1 g = range_refs h g"
    if "g \<in> set fs" for g
  proof -
    have "\<forall>r\<in>set (range_refs h g). cells h1 r = cells h r"
      using Cons.prems(2) that fr1 by simp
    then show ?thesis
      using range_frame [of h g h1] by simp
  qed
  have rest1: "list_all2 (\<lambda>f rv. range_value h1 f = Some rv) fs rvs'"
    using rest keep by (simp add: list_all2_conv_all_nth)
  have below1: "\<forall>g\<in>set fs. \<forall>r\<in>set (range_refs h1 g). r < next_ref h1"
    using Cons.prems(2) keep n1 by fastforce
  obtain fs' h2 where c2: "map_clone h1 fs = Inr (fs', h2)"
    and fr2: "\<forall>r. r < next_ref h1 \<longrightarrow> cells h2 r = cells h1 r"
    and n2: "next_ref h1 \<le> next_ref h2"
    and v2: "list_all2 (\<lambda>f rv. range_value h2 f = Some rv) fs' rvs'"
    and r2: "\<forall>g\<in>set fs'. \<forall>r\<in>set (range_refs h2 g). next_ref h1 \<le> r \<and> r < next_ref h2"
    using Cons.IH [OF rest1 below1] by blast
  have f'2: "range_value h2 f' = range_value h1 f' \<and> range_refs h2 f' = range_refs h1 f'"
  proof -
    have "\<forall>r\<in>set (range_refs h1 f'). cells h2 r = cells h1 r"
      using r1 fr2 by simp
    then show ?thesis
      using range_frame [of h1 f' h2] by simp
  qed
  have "map_clone h (f # fs) = Inr (f' # fs', h2)"
    by (simp add: c1 c2)
  moreover have "\<forall>r. r < next_ref h \<longrightarrow> cells h2 r = cells h r"
    using fr1 fr2 n1 by simp
  moreover have "next_ref h \<le> next_ref h2"
    using n1 n2 by simp
  moreover have "list_all2 (\<lambda>f rv. range_value h2 f = Some rv) (f' # fs') rvs"
    using v1 v2 f'2 rvs by simp
  moreover have "\<forall>g\<in>set (f' # fs'). \<forall>r\<in>set (range_refs h2 g).
      next_ref h \<le> r \<and> r < next_ref h2"
    using r1 r2 f'2 n1 n2 by fastforce
  ultimately show ?case by blast
qed

text \<open>One key of the matrix: the new map gets a new array of clones under that key.\<close>

lemma clone_key_ok:
  assumes m: "cells h m = Some (MapObj kvs)"
    and key: "map_of kvs key = Some a"
    and av: "array_value h a = Some rvs"
    and below: "\<forall>r\<in>set (array_refs h a). r < next_ref h"
    and m': "cells h m' = Some (MapObj acc)" "m' < next_ref h"
    and new: "key \<notin> fst ` set acc"
  shows "\<exists>h' a'. clone_key m m' h key = Inr h'
    \<and> (\<forall>r. r < next_ref h \<and> r \<noteq> m' \<longrightarrow> cells h' r = cells h r)
    \<and> next_ref h \<le> next_ref h'
    \<and> cells h' m' = Some (MapObj (acc @ [(key, a')]))
    \<and> array_value h' a' = Some rvs
    \<and> (\<forall>r\<in>set (array_refs h' a'). next_ref h \<le> r \<and> r < next_ref h')"
proof -
  obtain fs where a: "cells h a = Some (ArrayObj fs)"
    and vs: "list_all2 (\<lambda>f rv. range_value h f = Some rv) fs rvs"
    using av by (auto simp: array_value_def those_map_Some split: option.splits obj.splits)
  have b: "\<forall>f\<in>set fs. \<forall>r\<in>set (range_refs h f). r < next_ref h"
    using below a by (auto simp: array_refs_def)
  obtain fs' h1 where c: "map_clone h fs = Inr (fs', h1)"
    and fr1: "\<forall>r. r < next_ref h \<longrightarrow> cells h1 r = cells h r"
    and n1: "next_ref h \<le> next_ref h1"
    and v1: "list_all2 (\<lambda>f rv. range_value h1 f = Some rv) fs' rvs"
    and r1: "\<forall>f'\<in>set fs'. \<forall>r\<in>set (range_refs h1 f'). next_ref h \<le> r \<and> r < next_ref h1"
    using map_clone_ok [OF vs b] by blast
  define a' where "a' = next_ref h1"
  define h2 where "h2 = snd (alloc (ArrayObj fs') h1)"
  define h' where "h' = h2\<lparr>cells := (cells h2)(m' \<mapsto> MapObj (entries_set key a' acc))\<rparr>"
  have al: "alloc (ArrayObj fs') h1 = (a', h2)"
    by (simp add: a'_def h2_def alloc_eq)
  have c2: "cells h2 = (cells h1)(a' \<mapsto> ArrayObj fs')" "next_ref h2 = Suc (next_ref h1)"
    by (simp_all add: h2_def a'_def alloc_eq)
  have am: "a' \<noteq> m'"
    using m'(2) n1 by (simp add: a'_def)
  have m2: "cells h2 m' = Some (MapObj acc)"
    using m' fr1 am by (simp add: c2)
  have res: "clone_key m m' h key = Inr h'"
    by (simp add: clone_key_def m key a c al m2 h'_def)
  have ch': "cells h' = (cells h1)(a' \<mapsto> ArrayObj fs', m' \<mapsto> MapObj (acc @ [(key, a')]))"
    "next_ref h' = Suc (next_ref h1)"
    using new by (simp_all add: h'_def c2 entries_set_fresh)
  have keep: "range_value h' f' = range_value h1 f' \<and> range_refs h' f' = range_refs h1 f'"
    if "f' \<in> set fs'" for f'
  proof -
    have "r \<noteq> m' \<and> r \<noteq> a'" if "r \<in> set (range_refs h1 f')" for r
    proof -
      have "next_ref h \<le> r \<and> r < next_ref h1"
        using r1 \<open>f' \<in> set fs'\<close> that by blast
      then show ?thesis
        using m'(2) by (simp add: a'_def)
    qed
    then have "\<forall>r\<in>set (range_refs h1 f'). cells h' r = cells h1 r"
      by (simp add: ch')
    then show ?thesis
      using range_frame [of h1 f' h'] by simp
  qed
  have v': "array_value h' a' = Some rvs"
  proof -
    have "list_all2 (\<lambda>f rv. range_value h' f = Some rv) fs' rvs"
      using v1 keep by (simp add: list_all2_conv_all_nth)
    then show ?thesis
      using am by (simp add: array_value_def ch' those_map_Some)
  qed
  have r': "\<forall>r\<in>set (array_refs h' a'). next_ref h \<le> r \<and> r < next_ref h'"
  proof -
    have e: "array_refs h' a' = a' # concat (map (range_refs h') fs')"
      using am by (simp add: array_refs_def ch')
    have "next_ref h \<le> r \<and> r < next_ref h'"
      if "f' \<in> set fs'" and "r \<in> set (range_refs h' f')" for f' r
    proof -
      have "r \<in> set (range_refs h1 f')"
        using keep that by simp
      then have "next_ref h \<le> r \<and> r < next_ref h1"
        using r1 that(1) by blast
      then show ?thesis
        by (simp add: ch')
    qed
    moreover have "next_ref h \<le> a' \<and> a' < next_ref h'"
      using n1 by (simp add: ch'(2) a'_def)
    ultimately show ?thesis
      by (auto simp: e)
  qed
  have fr: "\<forall>r. r < next_ref h \<and> r \<noteq> m' \<longrightarrow> cells h' r = cells h r"
    using fr1 n1 by (auto simp: ch' a'_def)
  have nn: "next_ref h \<le> next_ref h'"
    using n1 by (simp add: ch')
  show ?thesis
    using res fr nn ch'(1) v' r' am by (intro exI [of _ h'] exI [of _ a']) simp
qed

text \<open>
  The loop over the keys.  \<open>n0\<close> is the first reference that \<open>clone\<close> allocates; the
  entries still to copy lie below it, the entries already copied at or above it.
\<close>

lemma entry_frame:
  assumes "\<forall>r\<in>set (array_refs h (snd kv)). cells h' r = cells h r"
  shows "entry_value h' kv = entry_value h kv"
    and "array_refs h' (snd kv) = array_refs h (snd kv)"
  using array_frame [OF assms] by (simp_all add: entry_value_def)

lemma clone_keys_ok:
  assumes "cells h m = Some (MapObj kvs)" and "m < n0"
    and "\<forall>kv\<in>set suf. map_of kvs (fst kv) = Some (snd kv)"
    and "list_all2 (\<lambda>kv e. entry_value h kv = Some e) suf vs"
    and "\<forall>kv\<in>set suf. \<forall>r\<in>set (array_refs h (snd kv)). r < n0"
    and "cells h m' = Some (MapObj acc)" and "n0 \<le> m'" and "m' < next_ref h"
    and "distinct (map fst suf)" and "fst ` set suf \<inter> fst ` set acc = {}"
    and "list_all2 (\<lambda>kv e. entry_value h kv = Some e) acc vacc"
    and "\<forall>kv\<in>set acc. \<forall>r\<in>set (array_refs h (snd kv)).
           n0 \<le> r \<and> r < next_ref h \<and> r \<noteq> m'"
  shows "\<exists>h' acc'. reduce_from (clone_key m m') h (map fst suf) = Inr h'
    \<and> (\<forall>r. r < next_ref h \<and> r \<noteq> m' \<longrightarrow> cells h' r = cells h r)
    \<and> next_ref h \<le> next_ref h'
    \<and> cells h' m' = Some (MapObj (acc @ acc'))
    \<and> map fst acc' = map fst suf
    \<and> list_all2 (\<lambda>kv e. entry_value h' kv = Some e) (acc @ acc') (vacc @ vs)
    \<and> (\<forall>kv\<in>set (acc @ acc'). \<forall>r\<in>set (array_refs h' (snd kv)).
          n0 \<le> r \<and> r < next_ref h' \<and> r \<noteq> m')"
  using assms
proof (induction suf arbitrary: h acc vs vacc)
  case Nil
  then show ?case by simp
next
  case (Cons ka suf)
  obtain k a where ka: "ka = (k, a)" by (cases ka)
  obtain rvs vs' where vs: "vs = (k, rvs) # vs'" and av: "array_value h a = Some rvs"
    and rest: "list_all2 (\<lambda>kv e. entry_value h kv = Some e) suf vs'"
    using Cons.prems(4) ka by (auto simp: list_all2_Cons1 entry_value_def)
  have look: "map_of kvs k = Some a"
    using Cons.prems(3) ka by simp
  have below: "\<forall>r\<in>set (array_refs h a). r < next_ref h"
    using Cons.prems(5,7,8) ka by fastforce
  have new: "k \<notin> fst ` set acc"
    using Cons.prems(10) ka by auto
  obtain h1 a' where c: "clone_key m m' h k = Inr h1"
    and fr1: "\<forall>r. r < next_ref h \<and> r \<noteq> m' \<longrightarrow> cells h1 r = cells h r"
    and n1: "next_ref h \<le> next_ref h1"
    and m1: "cells h1 m' = Some (MapObj (acc @ [(k, a')]))"
    and v1: "array_value h1 a' = Some rvs"
    and r1: "\<forall>r\<in>set (array_refs h1 a'). next_ref h \<le> r \<and> r < next_ref h1"
    using clone_key_ok [OF Cons.prems(1) look av below Cons.prems(6,8) new] by blast
  have old: "cells h1 r = cells h r" if "r < n0" for r
    using fr1 that Cons.prems(7,8) by simp
  have p1: "cells h1 m = Some (MapObj kvs)"
    using old [OF Cons.prems(2)] Cons.prems(1) by simp
  have p3: "\<forall>kv\<in>set suf. map_of kvs (fst kv) = Some (snd kv)"
    using Cons.prems(3) by simp
  have sufk: "entry_value h1 kv = entry_value h kv
              \<and> array_refs h1 (snd kv) = array_refs h (snd kv)"
    if "kv \<in> set suf" for kv
  proof -
    have "\<forall>r\<in>set (array_refs h (snd kv)). cells h1 r = cells h r"
      using Cons.prems(5) that old by simp
    then show ?thesis
      using entry_frame [of h kv h1] by simp
  qed
  have p4: "list_all2 (\<lambda>kv e. entry_value h1 kv = Some e) suf vs'"
    using rest sufk by (simp add: list_all2_conv_all_nth)
  have p5: "\<forall>kv\<in>set suf. \<forall>r\<in>set (array_refs h1 (snd kv)). r < n0"
    using Cons.prems(5) sufk by simp
  have p8: "m' < next_ref h1"
    using Cons.prems(8) n1 by simp
  have p9: "distinct (map fst suf)"
    using Cons.prems(9) by simp
  have p10: "fst ` set suf \<inter> fst ` set (acc @ [(k, a')]) = {}"
    using Cons.prems(9,10) ka by auto
  have acck: "entry_value h1 kv = entry_value h kv
              \<and> array_refs h1 (snd kv) = array_refs h (snd kv)"
    if "kv \<in> set acc" for kv
  proof -
    have "\<forall>r\<in>set (array_refs h (snd kv)). cells h1 r = cells h r"
      using Cons.prems(12) that fr1 by simp
    then show ?thesis
      using entry_frame [of h kv h1] by simp
  qed
  have "list_all2 (\<lambda>kv e. entry_value h1 kv = Some e) acc vacc"
    using Cons.prems(11) acck by (simp add: list_all2_conv_all_nth)
  moreover have "list_all2 (\<lambda>kv e. entry_value h1 kv = Some e) [(k, a')] [(k, rvs)]"
    using v1 by (simp add: entry_value_def)
  ultimately have p11:
    "list_all2 (\<lambda>kv e. entry_value h1 kv = Some e) (acc @ [(k, a')]) (vacc @ [(k, rvs)])"
    by (rule list_all2_appendI)
  have p12: "\<forall>kv\<in>set (acc @ [(k, a')]). \<forall>r\<in>set (array_refs h1 (snd kv)).
      n0 \<le> r \<and> r < next_ref h1 \<and> r \<noteq> m'"
  proof (intro ballI)
    fix kv r
    assume kv: "kv \<in> set (acc @ [(k, a')])" and r: "r \<in> set (array_refs h1 (snd kv))"
    show "n0 \<le> r \<and> r < next_ref h1 \<and> r \<noteq> m'"
    proof (cases "kv \<in> set acc")
      case True
      then have "r \<in> set (array_refs h (snd kv))"
        using acck r by simp
      then have "n0 \<le> r \<and> r < next_ref h \<and> r \<noteq> m'"
        using Cons.prems(12) True by blast
      then show ?thesis
        using n1 by simp
    next
      case False
      then have "kv = (k, a')"
        using kv by simp
      then have "next_ref h \<le> r \<and> r < next_ref h1"
        using r1 r by simp
      then show ?thesis
        using Cons.prems(7,8) by simp
    qed
  qed
  obtain h' acc' where
    i1: "reduce_from (clone_key m m') h1 (map fst suf) = Inr h'"
    and i2: "\<forall>r. r < next_ref h1 \<and> r \<noteq> m' \<longrightarrow> cells h' r = cells h1 r"
    and i3: "next_ref h1 \<le> next_ref h'"
    and i4: "cells h' m' = Some (MapObj ((acc @ [(k, a')]) @ acc'))"
    and i5: "map fst acc' = map fst suf"
    and i6: "list_all2 (\<lambda>kv e. entry_value h' kv = Some e)
               ((acc @ [(k, a')]) @ acc') ((vacc @ [(k, rvs)]) @ vs')"
    and i7: "\<forall>kv\<in>set ((acc @ [(k, a')]) @ acc'). \<forall>r\<in>set (array_refs h' (snd kv)).
               n0 \<le> r \<and> r < next_ref h' \<and> r \<noteq> m'"
    using Cons.IH [OF p1 Cons.prems(2) p3 p4 p5 m1 Cons.prems(7) p8 p9 p10 p11 p12]
    by blast
  have "reduce_from (clone_key m m') h (map fst (ka # suf)) = Inr h'"
    using c i1 ka by simp
  moreover have "\<forall>r. r < next_ref h \<and> r \<noteq> m' \<longrightarrow> cells h' r = cells h r"
    using fr1 i2 n1 by simp
  moreover have "next_ref h \<le> next_ref h'"
    using n1 i3 by simp
  moreover have "cells h' m' = Some (MapObj (acc @ ((k, a') # acc')))"
    using i4 by simp
  moreover have "map fst ((k, a') # acc') = map fst (ka # suf)"
    using i5 ka by simp
  moreover have "list_all2 (\<lambda>kv e. entry_value h' kv = Some e)
      (acc @ ((k, a') # acc')) (vacc @ vs)"
    using i6 vs by simp
  moreover have "\<forall>kv\<in>set (acc @ ((k, a') # acc')). \<forall>r\<in>set (array_refs h' (snd kv)).
      n0 \<le> r \<and> r < next_ref h' \<and> r \<noteq> m'"
    using i7 by simp
  ultimately show ?case by blast
qed

text \<open>
  Claim C5.  For a \<open>Single\<close> whose objects are all allocated, \<open>clone\<close> returns a new
  \<open>Single\<close> object with the same parent and tag name and a format matrix of the same
  deep value: the same keys in the same order, each with the clones of the original
  ranges, element by element.  No object that the clone reaches existed before, and no
  object that existed before is changed.  So whatever is done afterwards to the objects
  of the clone (its map, its arrays, its ranges, their abstract data) or to newer
  objects, the original keeps its value.
\<close>

theorem Single_clone_deep_independent:
  assumes "single_value h this = Some v"
    and "\<forall>r\<in>set (single_refs h this). r < next_ref h"
  shows "\<exists>s h'. Single_clone h this = Inr (s, h')
    \<and> next_ref h \<le> s \<and> s < next_ref h'
    \<and> single_value h' s = Some v
    \<and> (\<forall>r\<in>set (single_refs h' s). next_ref h \<le> r \<and> r < next_ref h')
    \<and> agree (next_ref h) h h'
    \<and> single_value h' this = Some v
    \<and> (\<forall>h''. agree (next_ref h) h' h'' \<longrightarrow> single_value h'' this = Some v)"
proof -
  define n0 where "n0 = next_ref h"
  obtain x where x: "cells h this = Some (SingleObj x)"
    using assms(1) by (auto simp: single_value_def split: option.splits obj.splits)
  define m where "m = formatMatrix x"
  obtain mv where mv: "matrix_value h m = Some mv"
    and v: "v = (parent x, Single.tagName x, mv)"
    using assms(1) x by (auto simp: single_value_def m_def)
  obtain kvs where kvs: "cells h m = Some (MapObj kvs)" and dist: "distinct (map fst kvs)"
    and vals: "list_all2 (\<lambda>kv e. entry_value h kv = Some e) kvs mv"
    using mv
    by (auto simp: matrix_value_def those_map_Some split: option.splits obj.splits if_splits)
  have refs: "single_refs h this = this # m # concat (map (\<lambda>kv. array_refs h (snd kv)) kvs)"
    using x kvs by (simp add: single_refs_def matrix_refs_def m_def)
  have this_lt: "this < n0" and m_lt: "m < n0"
    and arr_lt: "\<forall>kv\<in>set kvs. \<forall>r\<in>set (array_refs h (snd kv)). r < n0"
    using assms(2) by (auto simp: refs n0_def)
  define x' where
    "x' = \<lparr>parent = parent x, Single.tagName = Single.tagName x, formatMatrix = Suc (Suc n0)\<rparr>"
  define h4 where
    "h4 = (let (m0, h1) = alloc (MapObj []) h;
               (s, h2) = alloc (SingleObj \<lparr>parent = parent x, Single.tagName = Single.tagName x,
                                           formatMatrix = m0\<rparr>) h1;
               (m', h3) = alloc (MapObj []) h2
           in h3\<lparr>cells := (cells h3)(s \<mapsto>
                   SingleObj \<lparr>parent = parent x, Single.tagName = Single.tagName x,
                              formatMatrix = m'\<rparr>)\<rparr>)"
  have c4: "cells h4 = (cells h)(n0 \<mapsto> MapObj [], Suc n0 \<mapsto> SingleObj x',
                                 Suc (Suc n0) \<mapsto> MapObj [])"
    by (auto simp: h4_def alloc_eq Let_def n0_def x'_def fun_eq_iff)
  have n4: "next_ref h4 = Suc (Suc (Suc n0))"
    by (simp add: h4_def alloc_eq Let_def n0_def)
  have k4m: "cells h4 m = Some (MapObj kvs)"
    using kvs m_lt by (simp add: c4)
  have unfold: "Single_clone h this =
      (case reduce_from (clone_key m (Suc (Suc n0))) h4 (map fst kvs) of
         Inl e \<Rightarrow> Inl e | Inr h5 \<Rightarrow> Inr (Suc n0, h5))"
    using x kvs m_lt
    by (simp add: Single_clone_def h4_def alloc_eq Let_def n0_def m_def split: sum.splits)
  have old4: "cells h4 r = cells h r" if "r < n0" for r
    using that by (simp add: c4)
  have k4: "entry_value h4 kv = entry_value h kv
            \<and> array_refs h4 (snd kv) = array_refs h (snd kv)" if "kv \<in> set kvs" for kv
  proof -
    have "\<forall>r\<in>set (array_refs h (snd kv)). cells h4 r = cells h r"
      using arr_lt that old4 by simp
    then show ?thesis
      using entry_frame [of h kv h4] by simp
  qed
  have p1: "cells h4 m = Some (MapObj kvs)"
    using kvs m_lt old4 by simp
  have p3: "\<forall>kv\<in>set kvs. map_of kvs (fst kv) = Some (snd kv)"
    using dist by simp
  have p4: "list_all2 (\<lambda>kv e. entry_value h4 kv = Some e) kvs mv"
    using vals k4 by (simp add: list_all2_conv_all_nth)
  have p5: "\<forall>kv\<in>set kvs. \<forall>r\<in>set (array_refs h4 (snd kv)). r < n0"
    using arr_lt k4 by simp
  have p6: "cells h4 (Suc (Suc n0)) = Some (MapObj [])"
    by (simp add: c4)
  obtain h5 acc' where
    l1: "reduce_from (clone_key m (Suc (Suc n0))) h4 (map fst kvs) = Inr h5"
    and l2: "\<forall>r. r < next_ref h4 \<and> r \<noteq> Suc (Suc n0) \<longrightarrow> cells h5 r = cells h4 r"
    and l3: "next_ref h4 \<le> next_ref h5"
    and l4: "cells h5 (Suc (Suc n0)) = Some (MapObj acc')"
    and l5: "map fst acc' = map fst kvs"
    and l6: "list_all2 (\<lambda>kv e. entry_value h5 kv = Some e) acc' mv"
    and l7: "\<forall>kv\<in>set acc'. \<forall>r\<in>set (array_refs h5 (snd kv)).
               n0 \<le> r \<and> r < next_ref h5 \<and> r \<noteq> Suc (Suc n0)"
    using clone_keys_ok [OF p1 m_lt p3 p4 p5 p6, of "[]"] dist n4 by auto
  have res: "Single_clone h this = Inr (Suc n0, h5)"
    by (simp add: unfold l1)
  have s5: "cells h5 (Suc n0) = Some (SingleObj x')"
    using l2 by (simp add: n4 c4)
  have old5: "cells h5 r = cells h r" if "r < n0" for r
    using l2 old4 that by (simp add: n4)
  have mv5: "matrix_value h5 (Suc (Suc n0)) = Some mv"
    using l4 l5 l6 dist by (simp add: matrix_value_def those_map_Some)
  have sv5: "single_value h5 (Suc n0) = Some v"
    using s5 mv5 by (simp add: single_value_def x'_def v)
  have refs5: "single_refs h5 (Suc n0) =
      Suc n0 # Suc (Suc n0) # concat (map (\<lambda>kv. array_refs h5 (snd kv)) acc')"
    using s5 l4 by (simp add: single_refs_def matrix_refs_def x'_def)
  have new5: "\<forall>r\<in>set (single_refs h5 (Suc n0)). n0 \<le> r \<and> r < next_ref h5"
    using l3 l7 by (auto simp: refs5 n4)
  have ag: "agree n0 h h5"
    using old5 by (simp add: agree_def)
  have indep: "single_value h'' this = Some v" if "agree n0 h5 h''" for h''
  proof -
    have "\<forall>r\<in>set (single_refs h this). cells h'' r = cells h r"
      using that assms(2) old5 by (simp add: agree_def n0_def)
    then show ?thesis
      using single_frame [of h this h''] assms(1) by simp
  qed
  have same: "single_value h5 this = Some v"
    using indep [of h5] by (simp add: agree_def)
  have "next_ref h \<le> Suc n0 \<and> Suc n0 < next_ref h5"
    using l3 by (simp add: n0_def n4)
  then show ?thesis
    using res sv5 new5 ag indep same unfolding n0_def [symmetric] by blast
qed

theorem Single_clone_deep_independent_witness:
  "single_value sample_heap 4 = Some ((), ''img'', [(Some 7, [sample_range])])
   \<and> single_refs sample_heap 4 = [4, 3, 2, 1, 0]
   \<and> next_ref sample_heap = 5
   \<and> (\<exists>h'. Single_clone sample_heap 4 = Inr (6, h')
         \<and> single_value h' 6 = Some ((), ''img'', [(Some 7, [sample_range])])
         \<and> single_refs h' 6 = [6, 7, 10, 9, 8]
         \<and> single_value h' 4 = Some ((), ''img'', [(Some 7, [sample_range])])
         \<and> single_value
              (h'\<lparr>cells := (cells h')(8 \<mapsto> DataObj \<lparr>tag = ''em'', attrs = [],
                                 FormatAbstractData.styles = [], classes = []\<rparr>,
                               7 \<mapsto> MapObj [])\<rparr>) 4
            = Some ((), ''img'', [(Some 7, [sample_range])]))"
proof -
  have v: "single_value sample_heap 4 = Some ((), ''img'', [(Some 7, [sample_range])])"
    by (simp add: single_value_def matrix_value_def entry_value_def array_value_def
        range_value_def sample_heap_def sample_range_def)
  have r: "single_refs sample_heap 4 = [4, 3, 2, 1, 0]"
    by (simp add: single_refs_def matrix_refs_def array_refs_def range_refs_def
        sample_heap_def)
  have n: "next_ref sample_heap = 5"
    by (simp add: sample_heap_def)
  have b: "\<forall>r\<in>set (single_refs sample_heap 4). r < next_ref sample_heap"
    by (simp add: r n)
  have run: "\<exists>h'. Single_clone sample_heap 4 = Inr (6, h')
      \<and> single_refs h' 6 = [6, 7, 10, 9, 8]"
    by (simp add: Single_clone_def clone_key_def FormatRange_clone_def alloc_eq Let_def
        sample_heap_def single_refs_def matrix_refs_def array_refs_def range_refs_def)
  then obtain h' where c: "Single_clone sample_heap 4 = Inr (6, h')"
    and r': "single_refs h' 6 = [6, 7, 10, 9, 8]"
    by blast
  obtain s h2 where c2: "Single_clone sample_heap 4 = Inr (s, h2)"
    and v2: "single_value h2 s = Some ((), ''img'', [(Some 7, [sample_range])])"
    and o2: "single_value h2 4 = Some ((), ''img'', [(Some 7, [sample_range])])"
    and i2: "\<forall>h''. agree (next_ref sample_heap) h2 h'' \<longrightarrow>
               single_value h'' 4 = Some ((), ''img'', [(Some 7, [sample_range])])"
    using Single_clone_deep_independent [OF v b] by blast
  have e: "s = 6" "h2 = h'"
    using c c2 by simp_all
  have "agree (next_ref sample_heap) h'
      (h'\<lparr>cells := (cells h')(8 \<mapsto> DataObj \<lparr>tag = ''em'', attrs = [],
                                 FormatAbstractData.styles = [], classes = []\<rparr>,
                             7 \<mapsto> MapObj [])\<rparr>)"
    by (simp add: agree_def n)
  then have "single_value
      (h'\<lparr>cells := (cells h')(8 \<mapsto> DataObj \<lparr>tag = ''em'', attrs = [],
                                 FormatAbstractData.styles = [], classes = []\<rparr>,
                             7 \<mapsto> MapObj [])\<rparr>) 4
      = Some ((), ''img'', [(Some 7, [sample_range])])"
    using i2 e by blast
  then show ?thesis
    using v r n c r' v2 o2 e by blast
qed

subsection \<open>Merging formats\<close>









lemma no_overlap_Cons:
  "no_overlap (x # xs) \<longleftrightarrow> (\<forall>y\<in>set xs. \<not> overlaps x y) \<and> no_overlap xs"
  by (simp add: list_all_iff)





















end
